theory Spec2Isabelle
  imports Main "HOL-Library.Word"
begin

unbundle bit_operations_syntax

section \<open>Machine integers of the target\<close>

text \<open>
  The firmware runs on an 8-bit AVR: \<open>int\<close> is 16 bits wide, \<open>long\<close> 32 bits.
  A stored byte is an \<open>8 word\<close>, read with \<open>uint\<close> where the source declares
  \<open>uint8_t\<close> and with \<open>sint\<close> where it declares \<open>int8_t\<close>; a stored 16-bit value is
  a \<open>16 word\<close>, whose \<open>+\<close>, \<open>-\<close> and \<open>*\<close> wrap as 16-bit \<open>int\<close> arithmetic does.
  The one 32-bit computation (the portamento product) is carried out on \<open>int\<close>, where
  it is exact, and truncated when it is stored.
\<close>

type_synonym uint8_t = "8 word"
type_synonym int8_t = "8 word"
type_synonym uint16_t = "16 word"
type_synonym int16_t = "16 word"

text \<open>
  An array is addressed through a total map from the index expression to the cell.
  The source checks no index; a cell outside the declared bounds is a neighbouring static
  there, and a separate cell here.
\<close>

type_synonym 'a array = "int \<Rightarrow> 'a"

section \<open>Arithmetic helpers (hardware/utils/op.h)\<close>

text \<open>Modelled from the spec: op.h is not among the sources. \<open>Clip\<close> clamps a 16-bit
  accumulator to the given range ("Clamp the accumulator to [0, 16383]").\<close>

definition Clip :: "int16_t \<Rightarrow> int \<Rightarrow> int \<Rightarrow> int16_t" where
  "Clip v lo hi = (if sint v < lo then word_of_int lo else if hi < sint v then word_of_int hi else v)"

text \<open>Modelled from the spec: op.h is not among the sources. \<open>SignedUnsignedMul\<close> is
  the product "amount \<times> source_value (signed \<times> unsigned)"; it always fits 16 bits.\<close>

definition SignedUnsignedMul :: "int8_t \<Rightarrow> uint8_t \<Rightarrow> int16_t" where
  "SignedUnsignedMul a b = word_of_int (sint a * uint b)"

text \<open>Modelled from the spec: op.h is not among the sources. \<open>SignedMulScale8\<close> is the
  "signed-by-unsigned multiply, result right-shifted 8 bits"; the shift of a signed
  value is arithmetic, so the quotient is rounded towards minus infinity.\<close>

definition SignedMulScale8 :: "int8_t \<Rightarrow> uint8_t \<Rightarrow> int8_t" where
  "SignedMulScale8 a b = word_of_int (drop_bit 8 (sint a * uint b))"

text \<open>Modelled from the spec: op.h is not among the sources. \<open>SignedSignedMulScale8\<close> is
  the "signed\<times>signed scaled multiply" of the ring modulation.\<close>

definition SignedSignedMulScale8 :: "int8_t \<Rightarrow> int8_t \<Rightarrow> int8_t" where
  "SignedSignedMulScale8 a b = word_of_int (drop_bit 8 (sint a * sint b))"

text \<open>Modelled from the spec: op.h is not among the sources. \<open>MulScale8\<close> is the
  unsigned product scaled back to 8 bits, the step of the "multiplicative chain".\<close>

definition MulScale8 :: "uint8_t \<Rightarrow> uint8_t \<Rightarrow> uint8_t" where
  "MulScale8 a b = word_of_int (drop_bit 8 (uint a * uint b))"

text \<open>Modelled from the spec: op.h is not among the sources. \<open>UnsignedUnsignedMul\<close> is
  the product of two bytes (16 bits wide).\<close>

definition UnsignedUnsignedMul :: "uint8_t \<Rightarrow> uint8_t \<Rightarrow> uint16_t" where
  "UnsignedUnsignedMul a b = word_of_int (uint a * uint b)"

text \<open>Modelled from the spec: op.h is not among the sources. \<open>Mix a b balance\<close> is the
  "weighted blend" of two samples: \<open>a\<close> weighted by \<open>255 - balance\<close>, \<open>b\<close> by
  \<open>balance\<close>, scaled back to 8 bits.\<close>

definition Mix :: "uint8_t \<Rightarrow> uint8_t \<Rightarrow> uint8_t \<Rightarrow> uint8_t" where
  "Mix a b balance = word_of_int (drop_bit 8 (uint a * (255 - uint balance) + uint b * uint balance))"

text \<open>Modelled from the spec: op.h is not among the sources. \<open>ShiftRight6\<close> scales a
  14-bit value down to 8 bits; the result is the byte made of bits 6 to 13.\<close>

definition ShiftRight6 :: "uint16_t \<Rightarrow> uint8_t" where
  "ShiftRight6 v = ucast (drop_bit 6 v)"

section \<open>Constants and tables declared outside the sources\<close>

text \<open>
  The enumerations and constants of patch.h, synthesis_engine.h, envelope.h and midi.h
  are not among the sources. They are parameters of the model: every function below
  that mentions one takes the record \<open>Constants\<close>.
  The pitch constants are taken as signed 16-bit values, like the pitch they are
  compared with.
\<close>

record Constants =
  kNumGlobalModulationSources :: int
  kSavedModulationMatrixSize :: int
  MOD_SRC_LFO_1 :: int
  MOD_SRC_LFO_2 :: int
  MOD_SRC_SEQ :: int
  MOD_SRC_STEP :: int
  MOD_SRC_WHEEL :: int
  MOD_SRC_PITCH_BEND :: int
  MOD_SRC_ASSIGNABLE_1 :: int
  MOD_SRC_ASSIGNABLE_2 :: int
  MOD_SRC_CV_1 :: int
  MOD_SRC_CV_2 :: int
  MOD_SRC_RANDOM :: int
  MOD_SRC_ENV_1 :: int
  MOD_SRC_ENV_2 :: int
  MOD_SRC_VELOCITY :: int
  MOD_SRC_NOTE :: int
  MOD_SRC_GATE :: int
  MOD_DST_FILTER_CUTOFF :: int
  MOD_DST_VCA :: int
  MOD_DST_PWM_1 :: int
  MOD_DST_PWM_2 :: int
  MOD_DST_VCO_1 :: int
  MOD_DST_VCO_2 :: int
  MOD_DST_VCO_1_2_FINE :: int
  MOD_DST_MIX_BALANCE :: int
  MOD_DST_MIX_NOISE :: int
  MOD_DST_MIX_SUB_OSC :: int
  MOD_DST_FILTER_RESONANCE :: int
  kOctave :: int16_t
  kLowestNote :: int16_t
  kHighestNote :: int16_t
  kPitchTableStart :: int16_t
  ATTACK :: uint8_t
  RELEASE :: uint8_t
  WAVEFORM_SAW :: uint8_t
  WAVEFORM_SQUARE :: uint8_t
  LFO_WAVEFORM_TRIANGLE :: uint8_t
  WAVEFORM_FM :: uint8_t
  WAVEFORM_VOWEL :: uint8_t
  RING_MOD :: uint8_t
  XOR_op :: uint8_t
  SYNC :: uint8_t

text \<open>
  The lookup tables live in program memory (resources.cc, not among the sources).
  \<open>lut_res_scale r k\<close> is entry \<open>k\<close> of the table \<open>LUT_RES_SCALE_JUST + r\<close>.
\<close>

record Resources =
  lut_res_env_portamento_increments :: "int \<Rightarrow> uint16_t"
  lut_res_scale :: "int \<Rightarrow> int \<Rightarrow> int8_t"
  lut_res_oscillator_increments :: "int \<Rightarrow> uint16_t"
  lut_res_lfo_increments :: "int \<Rightarrow> uint16_t"

section \<open>The patch (hardware/shruti/patch.h)\<close>

text \<open>
  Modelled from the spec: patch.h is not among the sources. The patch is the "flat,
  densely indexed collection of 8-bit values" of section 3, addressed from its first
  byte \<open>keep_me_at_the_top\<close>. The fields follow the order of the initialiser
  \<open>empty_patch\<close> of synthesis_engine.cc, which is copied byte for byte into the patch:
  28 parameter bytes, 14 modulations of 3 bytes, the arpeggiator settings, the
  8 sequence steps, the keyboard settings, the name and the pattern size.
\<close>

type_synonym Patch = "uint8_t array"

definition kModulationMatrixSize :: nat where
  "kModulationMatrixSize = 14"

definition osc_shape :: "Patch \<Rightarrow> int \<Rightarrow> uint8_t" where
  "osc_shape p i = p (1 + i)"

definition osc_parameter :: "Patch \<Rightarrow> int \<Rightarrow> uint8_t" where
  "osc_parameter p i = p (3 + i)"

definition osc_range :: "Patch \<Rightarrow> int \<Rightarrow> int8_t" where
  "osc_range p i = p (5 + i)"

definition osc_option :: "Patch \<Rightarrow> int \<Rightarrow> uint8_t" where
  "osc_option p i = p (7 + i)"

definition mix_balance :: "Patch \<Rightarrow> uint8_t" where
  "mix_balance p = p 9"

definition mix_sub_osc :: "Patch \<Rightarrow> uint8_t" where
  "mix_sub_osc p = p 10"

definition mix_noise :: "Patch \<Rightarrow> uint8_t" where
  "mix_noise p = p 11"

definition mix_sub_osc_shape :: "Patch \<Rightarrow> uint8_t" where
  "mix_sub_osc_shape p = p 12"

definition filter_cutoff :: "Patch \<Rightarrow> uint8_t" where
  "filter_cutoff p = p 13"

definition filter_resonance :: "Patch \<Rightarrow> uint8_t" where
  "filter_resonance p = p 14"

definition filter_env :: "Patch \<Rightarrow> int8_t" where
  "filter_env p = p 15"

definition filter_lfo :: "Patch \<Rightarrow> int8_t" where
  "filter_lfo p = p 16"

definition env_attack :: "Patch \<Rightarrow> int \<Rightarrow> uint8_t" where
  "env_attack p i = p (17 + i)"

definition env_decay :: "Patch \<Rightarrow> int \<Rightarrow> uint8_t" where
  "env_decay p i = p (19 + i)"

definition env_sustain :: "Patch \<Rightarrow> int \<Rightarrow> uint8_t" where
  "env_sustain p i = p (21 + i)"

definition env_release :: "Patch \<Rightarrow> int \<Rightarrow> uint8_t" where
  "env_release p i = p (23 + i)"

definition lfo_wave :: "Patch \<Rightarrow> int \<Rightarrow> uint8_t" where
  "lfo_wave p i = p (25 + i)"

definition lfo_rate :: "Patch \<Rightarrow> int \<Rightarrow> uint8_t" where
  "lfo_rate p i = p (27 + i)"

text \<open>\<open>modulation_matrix.modulation[i]\<close>: source, destination and signed amount.\<close>

definition modulation_source :: "Patch \<Rightarrow> nat \<Rightarrow> uint8_t" where
  "modulation_source p i = p (29 + 3 * int i)"

definition modulation_destination :: "Patch \<Rightarrow> nat \<Rightarrow> uint8_t" where
  "modulation_destination p i = p (30 + 3 * int i)"

definition modulation_amount :: "Patch \<Rightarrow> nat \<Rightarrow> int8_t" where
  "modulation_amount p i = p (31 + 3 * int i)"

definition kbd_octave :: "Patch \<Rightarrow> int8_t" where
  "kbd_octave p = p 83"

definition kbd_raga :: "Patch \<Rightarrow> uint8_t" where
  "kbd_raga p = p 84"

definition kbd_portamento :: "Patch \<Rightarrow> uint8_t" where
  "kbd_portamento p = p 85"

definition kbd_midi_channel :: "Patch \<Rightarrow> uint8_t" where
  "kbd_midi_channel p = p 86"

section \<open>The state: the static members of SynthesisEngine and Voice\<close>

text \<open>
  Modelled from the spec: lfo.h is not among the sources. An LFO is "a phase
  accumulator, a selected waveform, and a current increment"; \<open>Reset\<close> forces the
  phase back to zero, \<open>Update\<close> selects waveform and increment, \<open>Increment\<close> advances
  the phase by the increment.
\<close>

record Lfo =
  lfo_phase :: uint16_t
  lfo_increment :: uint16_t
  lfo_waveform :: uint8_t

definition Lfo_Reset :: "Lfo \<Rightarrow> Lfo" where
  "Lfo_Reset l = l\<lparr>lfo_phase := 0\<rparr>"

definition Lfo_Update :: "uint8_t \<Rightarrow> uint16_t \<Rightarrow> Lfo \<Rightarrow> Lfo" where
  "Lfo_Update w inc l = l\<lparr>lfo_waveform := w, lfo_increment := inc\<rparr>"

definition Lfo_Increment :: "Lfo \<Rightarrow> Lfo" where
  "Lfo_Increment l = l\<lparr>lfo_phase := lfo_phase l + lfo_increment l\<rparr>"

text \<open>
  The envelopes, the oscillators and the note dispatcher are collaborators whose code
  is not among the sources. A call that changes one of them is recorded, in order, in
  the state; what a call returns is an input of the function that makes it.
\<close>

datatype Call =
    Envelope_Trigger int uint8_t
  | Envelope_Render int
  | Envelope_Update int uint8_t uint8_t uint8_t uint8_t
  | Osc1_Reset
  | Osc2_Reset
  | SubOsc_Reset
  | Osc1_SetupAlgorithm uint8_t
  | Osc2_SetupAlgorithm uint8_t
  | SubOsc_SetupAlgorithm uint8_t
  | Osc1_UpdateSecondaryParameter int
  | Osc1_Update int8_t int16_t uint16_t
  | SubOsc_Update int8_t int16_t uint16_t
  | Osc2_Update int8_t int16_t uint16_t
  | Osc1_Render
  | Osc2_Render
  | SubOsc_Render
  | Osc2_ResetPhase
  | controller_SetTempo uint8_t
  | controller_SetOctaves uint8_t
  | controller_SetPattern uint8_t
  | controller_SetSwing uint8_t
  | controller_set_pattern_size uint8_t
  | controller_Control

record State =
  modulation_sources :: "uint8_t array"
  patch :: Patch
  lfo :: "Lfo array"
  nrpn_parameter_number :: uint8_t
  num_lfo_reset_steps :: uint8_t
  lfo_reset_counter :: uint8_t
  lfo_to_reset :: uint8_t
  dead :: uint8_t
  pitch_increment :: int16_t
  pitch_target :: int16_t
  pitch_value :: int16_t
  voice_modulation_sources :: "uint8_t array"
  modulation_destinations :: "int8_t array"
  dst :: "int16_t array"
  signal :: uint8_t
  osc1_phase_msb :: uint8_t
  calls :: "Call list"

definition call :: "Call \<Rightarrow> State \<Rightarrow> State" where
  "call c s = s\<lparr>calls := calls s @ [c]\<rparr>"

section \<open>Voice::Trigger\<close>

definition kNumEnvelopes :: nat where
  "kNumEnvelopes = 2"

definition TriggerEnvelope :: "uint8_t \<Rightarrow> State \<Rightarrow> State" where
  "TriggerEnvelope stage s =
     fold (\<lambda>i. call (Envelope_Trigger (int i) stage)) [0..<kNumEnvelopes] s"

definition Trigger :: "Constants \<Rightarrow> Resources \<Rightarrow> uint8_t \<Rightarrow> uint8_t \<Rightarrow> uint8_t \<Rightarrow> State \<Rightarrow> State" where
  "Trigger c res note velocity legato s0 =
    (let s1 = (if legato = 0
               then (let t = call SubOsc_Reset (call Osc2_Reset (call Osc1_Reset
                                (TriggerEnvelope (ATTACK c) s0)))
                     in t\<lparr>voice_modulation_sources := (voice_modulation_sources t)
                            (MOD_SRC_VELOCITY c - kNumGlobalModulationSources c := push_bit 1 velocity)\<rparr>)
               else s0);
         target0 = push_bit 7 (ucast note :: int16_t);
         target = (if kbd_raga (patch s1) \<noteq> 0
                   then target0 + scast (lut_res_scale res (uint (kbd_raga (patch s1)) - 1)
                                           (uint note mod 12))
                   else target0);
         value = (if pitch_value s1 = 0 then target else pitch_value s1);
         delta = target - value;
         increment = uint (lut_res_env_portamento_increments res
                             (uint (kbd_portamento (patch s1))));
         pitch_increment = (word_of_int (drop_bit 15 (sint delta * increment)) :: int16_t)
     in s1\<lparr>pitch_target := target,
            pitch_value := value,
            pitch_increment := (if pitch_increment = 0
                                 then (if delta <s 0 then - 1 else 1)
                                 else pitch_increment)\<rparr>)"

section \<open>Voice::Control\<close>

subsection \<open>The pitch step\<close>

definition Control_pitch :: "State \<Rightarrow> State" where
  "Control_pitch s =
    (let value = pitch_value s + pitch_increment s
     in if (0 <s pitch_increment s) \<noteq> (value <s pitch_target s)
        then s\<lparr>pitch_value := pitch_target s, pitch_increment := 0\<rparr>
        else s\<lparr>pitch_value := value\<rparr>)"

subsection \<open>Envelopes and voice-local modulation sources\<close>

text \<open>What the envelopes return during one call of \<open>Voice::Control\<close>, after \<open>Render\<close>.\<close>

record ControlInput =
  envelope_dead :: "int \<Rightarrow> uint8_t"
  envelope_value :: "int \<Rightarrow> uint16_t"
  envelope_stage :: "int \<Rightarrow> uint8_t"

definition Control_envelopes :: "ControlInput \<Rightarrow> State \<Rightarrow> State" where
  "Control_envelopes inp s =
     fold (\<lambda>i t. (call (Envelope_Render (int i)) t)
                    \<lparr>dead := (if dead t \<noteq> 0 \<and> envelope_dead inp (int i) \<noteq> 0 then 1 else 0)\<rparr>)
          [0..<kNumEnvelopes] (s\<lparr>dead := 1\<rparr>)"

definition Control_sources :: "Constants \<Rightarrow> ControlInput \<Rightarrow> State \<Rightarrow> State" where
  "Control_sources c inp s =
     s\<lparr>voice_modulation_sources := (voice_modulation_sources s)
         (MOD_SRC_ENV_1 c - kNumGlobalModulationSources c := ShiftRight6 (envelope_value inp 0),
          MOD_SRC_ENV_2 c - kNumGlobalModulationSources c := ShiftRight6 (envelope_value inp 1),
          MOD_SRC_NOTE c - kNumGlobalModulationSources c := ShiftRight6 (pitch_value s),
          MOD_SRC_GATE c - kNumGlobalModulationSources c :=
            (if RELEASE c \<le> envelope_stage inp 0 then 0 else 255))\<rparr>"

subsection \<open>The modulation matrix\<close>

text \<open>Full amplitude, and each additive destination loaded with its parameter, scaled
  to the 14-bit working range.\<close>

definition Control_load :: "Constants \<Rightarrow> State \<Rightarrow> State" where
  "Control_load c s =
     s\<lparr>modulation_destinations := (modulation_destinations s)(MOD_DST_VCA c := 255),
       dst := (dst s)
         (MOD_DST_FILTER_CUTOFF c := push_bit 7 (ucast (filter_cutoff (patch s))),
          MOD_DST_PWM_1 c := push_bit 7 (ucast (osc_parameter (patch s) 0)),
          MOD_DST_PWM_2 c := push_bit 7 (ucast (osc_parameter (patch s) 1)),
          MOD_DST_VCO_1 c := 8192,
          MOD_DST_VCO_2 c := 8192,
          MOD_DST_VCO_1_2_FINE c := 8192,
          MOD_DST_MIX_BALANCE c := push_bit 8 (ucast (mix_balance (patch s))),
          MOD_DST_MIX_NOISE c := push_bit 8 (ucast (mix_noise (patch s))),
          MOD_DST_MIX_SUB_OSC c := push_bit 8 (ucast (mix_sub_osc (patch s))),
          MOD_DST_FILTER_RESONANCE c := push_bit 8 (ucast (filter_resonance (patch s))))\<rparr>"

text \<open>The value of a source: global sources are read from the engine, the others from
  the voice.\<close>

definition read_source :: "Constants \<Rightarrow> State \<Rightarrow> int \<Rightarrow> uint8_t" where
  "read_source c s source =
     (if source < kNumGlobalModulationSources c
      then modulation_sources s source
      else voice_modulation_sources s (source - kNumGlobalModulationSources c))"

text \<open>The body of the matrix loop once amount, source and destination are known.\<close>

definition apply_modulation :: "Constants \<Rightarrow> int8_t \<Rightarrow> int \<Rightarrow> int \<Rightarrow> State \<Rightarrow> State" where
  "apply_modulation c amount source destination s =
     (let source_value = read_source c s source
      in if destination \<noteq> MOD_DST_VCA c
         then (let modulation = dst s destination + SignedUnsignedMul amount source_value;
                   modulation = (if source \<le> MOD_SRC_LFO_2 c \<or> source = MOD_SRC_PITCH_BEND c \<or>
                                    source = MOD_SRC_NOTE c
                                 then modulation - push_bit 7 (scast amount)
                                 else modulation)
               in s\<lparr>dst := (dst s)(destination := Clip modulation 0 16383)\<rparr>)
         else (let negative = amount <s 0;
                   amount = (if negative then - amount else amount);
                   source_value = (if negative then 255 - source_value else source_value)
               in s\<lparr>modulation_destinations := (modulation_destinations s)
                      (MOD_DST_VCA c :=
                         MulScale8 (modulation_destinations s (MOD_DST_VCA c))
                                   (Mix 255 source_value (push_bit 2 amount)))\<rparr>))"

text \<open>One iteration of the loop, for the matrix row \<open>i\<close>.\<close>

definition modulation_entry :: "Constants \<Rightarrow> nat \<Rightarrow> State \<Rightarrow> State" where
  "modulation_entry c i s =
     (let amount = modulation_amount (patch s) i
      in if amount = 0 then s
         else apply_modulation c
                (if int i = kSavedModulationMatrixSize c - 1
                 then SignedMulScale8 amount (modulation_sources s (MOD_SRC_WHEEL c))
                 else amount)
                (uint (modulation_source (patch s) i))
                (uint (modulation_destination (patch s) i)) s)"

function modulation_matrix_loop :: "Constants \<Rightarrow> nat \<Rightarrow> State \<Rightarrow> State" where
  "modulation_matrix_loop c i s =
     (if i < kModulationMatrixSize
      then modulation_matrix_loop c (Suc i) (modulation_entry c i s)
      else s)"
  by pat_completeness auto
termination
  by (relation "measure (\<lambda>(c, i, s). kModulationMatrixSize - i)") auto

declare modulation_matrix_loop.simps [simp del]

text \<open>The two hardcoded filter modulations.\<close>

definition filter_modulations :: "Constants \<Rightarrow> State \<Rightarrow> State" where
  "filter_modulations c s =
     (let d1 = Clip (dst s (MOD_DST_FILTER_CUTOFF c) +
                     SignedUnsignedMul (filter_env (patch s))
                       (voice_modulation_sources s
                          (MOD_SRC_ENV_1 c - kNumGlobalModulationSources c)))
                    0 16383;
          d2 = Clip (d1 + SignedUnsignedMul (filter_lfo (patch s))
                            (modulation_sources s (MOD_SRC_LFO_2 c)) -
                     push_bit 7 (scast (filter_lfo (patch s))))
                    0 16383
      in s\<lparr>dst := (dst s)(MOD_DST_FILTER_CUTOFF c := d2)\<rparr>)"

text \<open>Each accumulator scaled down to the range of its destination and stored.\<close>

definition store_destinations :: "Constants \<Rightarrow> State \<Rightarrow> State" where
  "store_destinations c s =
     s\<lparr>modulation_destinations := (modulation_destinations s)
         (MOD_DST_FILTER_CUTOFF c := ShiftRight6 (dst s (MOD_DST_FILTER_CUTOFF c)),
          MOD_DST_FILTER_RESONANCE c := ShiftRight6 (dst s (MOD_DST_FILTER_RESONANCE c)),
          MOD_DST_PWM_1 c := ucast (signed_drop_bit 7 (dst s (MOD_DST_PWM_1 c))),
          MOD_DST_PWM_2 c := ucast (signed_drop_bit 7 (dst s (MOD_DST_PWM_2 c))),
          MOD_DST_MIX_BALANCE c := ShiftRight6 (dst s (MOD_DST_MIX_BALANCE c)),
          MOD_DST_MIX_NOISE c := ucast (signed_drop_bit 8 (dst s (MOD_DST_MIX_NOISE c))),
          MOD_DST_MIX_SUB_OSC c := ucast (signed_drop_bit 7 (dst s (MOD_DST_MIX_SUB_OSC c))))\<rparr>"

text \<open>The modulation stage of \<open>Voice::Control\<close>: sources, load, matrix, filter, store.\<close>

definition Control_modulation :: "Constants \<Rightarrow> ControlInput \<Rightarrow> State \<Rightarrow> State" where
  "Control_modulation c inp s =
     store_destinations c (filter_modulations c
       (modulation_matrix_loop c 0 (Control_load c (Control_sources c inp s))))"

subsection \<open>Oscillator pitch\<close>

partial_function (option) wrap_lowest :: "Constants \<Rightarrow> int16_t \<Rightarrow> int16_t option" where
  "wrap_lowest c pitch =
     (if pitch <s kLowestNote c then wrap_lowest c (pitch + kOctave c) else Some pitch)"

partial_function (option) wrap_highest :: "Constants \<Rightarrow> int16_t \<Rightarrow> int16_t option" where
  "wrap_highest c pitch =
     (if kHighestNote c \<le>s pitch then wrap_highest c (pitch - kOctave c) else Some pitch)"

partial_function (option) table_shift ::
    "Constants \<Rightarrow> int16_t \<Rightarrow> uint8_t \<Rightarrow> (int16_t \<times> uint8_t) option" where
  "table_shift c ref_pitch num_shifts =
     (if ref_pitch <s 0 then table_shift c (ref_pitch + kOctave c) (num_shifts + 1)
      else Some (ref_pitch, num_shifts))"

text \<open>From the wrapped pitch to the phase increment: the table lookup and the shift.\<close>

definition pitch_increment_lookup :: "Constants \<Rightarrow> Resources \<Rightarrow> int16_t \<Rightarrow> uint16_t option" where
  "pitch_increment_lookup c res pitch =
     (case table_shift c (pitch - kPitchTableStart c) 0 of
        None \<Rightarrow> None
      | Some (ref_pitch, num_shifts) \<Rightarrow>
          Some (drop_bit (unat num_shifts)
                  (lut_res_oscillator_increments res (uint (signed_drop_bit 1 ref_pitch)))))"

text \<open>Wrap the assembled pitch into the playable range, then look the increment up.\<close>

definition resolve_pitch :: "Constants \<Rightarrow> Resources \<Rightarrow> int16_t \<Rightarrow> (int16_t \<times> uint16_t) option" where
  "resolve_pitch c res pitch =
     (case wrap_lowest c pitch of
        None \<Rightarrow> None
      | Some p1 \<Rightarrow>
         (case wrap_highest c p1 of
            None \<Rightarrow> None
          | Some p2 \<Rightarrow>
             (case pitch_increment_lookup c res p2 of
                None \<Rightarrow> None
              | Some increment \<Rightarrow> Some (p2, increment))))"

text \<open>The pitch of oscillator \<open>i\<close> before wrapping.\<close>

definition assemble_pitch :: "Constants \<Rightarrow> nat \<Rightarrow> State \<Rightarrow> int16_t" where
  "assemble_pitch c i s =
     (let pitch = pitch_value s;
          pitch = (if i = 0 \<and> osc_shape (patch s) 0 = WAVEFORM_FM c
                   then pitch
                   else pitch + push_bit 7 (scast (osc_range (patch s) (int i))));
          pitch = pitch + scast (kbd_octave (patch s)) * kOctave c;
          pitch = (if i = 1 then pitch + ucast (osc_option (patch s) 1) else pitch);
          pitch = pitch + signed_drop_bit 2 (dst s (MOD_DST_VCO_1 c + int i) - 8192);
          pitch = pitch + signed_drop_bit 4 (dst s (MOD_DST_VCO_1_2_FINE c) - 8192)
      in pitch)"

definition Control_oscillator :: "Constants \<Rightarrow> Resources \<Rightarrow> nat \<Rightarrow> State \<Rightarrow> State option" where
  "Control_oscillator c res i s =
     (let s1 = (if i = 0 \<and> osc_shape (patch s) 0 = WAVEFORM_FM c
                then call (Osc1_UpdateSecondaryParameter (sint (osc_range (patch s) (int i)) + 12)) s
                else s)
      in case resolve_pitch c res (assemble_pitch c i s) of
           None \<Rightarrow> None
         | Some (pitch, increment) \<Rightarrow>
            (let note = signed_drop_bit 7 pitch
             in Some (if i = 0
                      then call (SubOsc_Update 0 (note - 12) (drop_bit 1 increment))
                             (call (Osc1_Update (modulation_destinations s (MOD_DST_PWM_1 c))
                                      note increment) s1)
                      else call (Osc2_Update (modulation_destinations s (MOD_DST_PWM_2 c))
                                   note increment) s1)))"

definition kNumOscillators :: nat where
  "kNumOscillators = 2"

subsection \<open>The whole control tick of the voice\<close>

definition Control :: "Constants \<Rightarrow> Resources \<Rightarrow> ControlInput \<Rightarrow> State \<Rightarrow> State option" where
  "Control c res inp s =
     (let s1 = Control_modulation c inp (Control_pitch (Control_envelopes inp s))
      in case Control_oscillator c res 0 s1 of
           None \<Rightarrow> None
         | Some s2 \<Rightarrow> Control_oscillator c res 1 s2)"

section \<open>Voice::Audio\<close>

text \<open>What the oscillators and the noise generator return during one call.\<close>

record AudioInput =
  osc_2_render :: uint8_t
  osc_1_render :: uint8_t
  sub_osc_render :: uint8_t
  random_state_msb :: uint8_t
  osc_1_phase :: uint16_t

definition Audio :: "Constants \<Rightarrow> AudioInput \<Rightarrow> State \<Rightarrow> State" where
  "Audio c inp s =
     (if dead s \<noteq> 0 then s\<lparr>signal := 128\<rparr>
      else
       (let s1 = call Osc1_Render (call Osc2_Render s);
            osc_2 = osc_2_render inp;
            mix = osc_1_render inp;
            (mix, s2) =
              (if osc_option (patch s) 0 = RING_MOD c
               then (SignedSignedMulScale8 (mix + 128) (osc_2 + 128) + 128, s1)
               else if osc_option (patch s) 0 = XOR_op c
               then ((mix XOR osc_2) + modulation_destinations s (MOD_DST_MIX_BALANCE c), s1)
               else (Mix mix osc_2 (modulation_destinations s (MOD_DST_MIX_BALANCE c)),
                     (if osc_option (patch s) 0 = SYNC c
                      then (let phase_msb = (ucast (drop_bit 8 (osc_1_phase inp)) :: uint8_t);
                                s' = (if phase_msb < osc1_phase_msb s1
                                      then call Osc2_ResetPhase s1 else s1)
                            in s'\<lparr>osc1_phase_msb := phase_msb\<rparr>)
                      else s1)));
            (mix, s3) =
              (if osc_shape (patch s) 0 \<noteq> WAVEFORM_VOWEL c
               then (Mix (Mix mix (sub_osc_render inp)
                            (modulation_destinations s (MOD_DST_MIX_SUB_OSC c)))
                         (random_state_msb inp)
                         (modulation_destinations s (MOD_DST_MIX_NOISE c)),
                     call SubOsc_Render s2)
               else (mix, s2))
        in s3\<lparr>signal := mix\<rparr>))"

section \<open>SynthesisEngine\<close>

text \<open>
  The parameter identifiers of patch.h, the controller numbers of midi.h, the size of
  the patch and the number of voices are not among the sources; they are parameters.
  So is what the note dispatcher answers when it is asked for its estimated beat
  duration, which may depend on the calls it has received: it is a function of the
  recorded calls, and taken to be a 16-bit unsigned value.
\<close>

record EngineConstants =
  PRM_OSC_SHAPE_2 :: int
  PRM_MIX_SUB_OSC_SHAPE :: int
  PRM_ENV_ATTACK_1 :: int
  PRM_LFO_RATE_2 :: int
  PRM_ARP_TEMPO :: int
  PRM_ARP_OCTAVE :: int
  PRM_ARP_PATTERN :: int
  PRM_ARP_SWING :: int
  PRM_ARP_PATTERN_SIZE :: int
  sizeof_Patch :: int
  kModulationWheelMsb :: uint8_t
  kDataEntryMsb :: uint8_t
  kPortamentoTimeMsb :: uint8_t
  kRelease :: uint8_t
  kAttack :: uint8_t
  kHarmonicIntensity :: uint8_t
  kBrightness :: uint8_t
  kNrpnMsb :: uint8_t
  kNumVoices :: nat
  estimated_beat_duration :: "Call list \<Rightarrow> uint16_t"

text \<open>Modelled from the spec: the number of LFOs is declared outside the sources; the
  patch holds "LFO waveforms/rates \<times>2".\<close>

definition kNumLfos :: nat where
  "kNumLfos = 2"

subsection \<open>UpdateOscillatorAlgorithms\<close>

definition UpdateOscillatorAlgorithms :: "State \<Rightarrow> State" where
  "UpdateOscillatorAlgorithms s =
     call (SubOsc_SetupAlgorithm (mix_sub_osc_shape (patch s)))
       (call (Osc2_SetupAlgorithm (osc_shape (patch s) 1))
          (call (Osc1_SetupAlgorithm (osc_shape (patch s) 0)) s))"

subsection \<open>UpdateModulationIncrements\<close>

text \<open>
  The increment of a tempo-synced LFO: \<open>65536 / (beat * (1 + rate) / 4)\<close>. The divisor
  is computed in 16-bit unsigned arithmetic, the quotient in 32 bits and truncated to
  16. A divisor of zero has no defined result: the value is \<open>None\<close>.
\<close>

definition synced_increment :: "uint16_t \<Rightarrow> uint8_t \<Rightarrow> uint16_t option" where
  "synced_increment beat rate =
     (let divisor = drop_bit 2 (beat * (1 + ucast rate))
      in if divisor = 0 then None else Some (word_of_int (65536 div uint divisor)))"

text \<open>The body of the loop for LFO (and envelope) \<open>i\<close>.\<close>

definition update_lfo :: "EngineConstants \<Rightarrow> Resources \<Rightarrow> nat \<Rightarrow> State \<Rightarrow> State option" where
  "update_lfo e res i s =
     (let rate = lfo_rate (patch s) (int i);
          synced = rate < 16;
          increment = (if synced then synced_increment (estimated_beat_duration e (calls s)) rate
                       else Some (lut_res_lfo_increments res (uint rate - 16)))
      in case increment of
           None \<Rightarrow> None
         | Some increment \<Rightarrow>
            (let s1 = (if synced
                       then s\<lparr>num_lfo_reset_steps :=
                                ucast (UnsignedUnsignedMul
                                         (if num_lfo_reset_steps s \<noteq> 0
                                          then num_lfo_reset_steps s else 1)
                                         (1 + rate)),
                              lfo_to_reset := lfo_to_reset s OR push_bit i 1\<rparr>
                       else s);
                 s2 = s1\<lparr>lfo := (lfo s1)(int i :=
                                   Lfo_Update (lfo_wave (patch s) (int i)) increment
                                     (lfo s1 (int i)))\<rparr>
             in Some (fold (\<lambda>j. call (Envelope_Update (int i)
                                           (env_attack (patch s) (int i))
                                           (env_decay (patch s) (int i))
                                           (env_sustain (patch s) (int i))
                                           (env_release (patch s) (int i))))
                           [0..<kNumVoices e] s2)))"

fun update_lfos :: "EngineConstants \<Rightarrow> Resources \<Rightarrow> nat list \<Rightarrow> State \<Rightarrow> State option" where
  "update_lfos e res [] s = Some s"
| "update_lfos e res (i # is) s =
     (case update_lfo e res i s of None \<Rightarrow> None | Some t \<Rightarrow> update_lfos e res is t)"

definition UpdateModulationIncrements :: "EngineConstants \<Rightarrow> Resources \<Rightarrow> State \<Rightarrow> State option" where
  "UpdateModulationIncrements e res s =
     update_lfos e res [0..<kNumLfos] (s\<lparr>num_lfo_reset_steps := 0, lfo_to_reset := 0\<rparr>)"

subsection \<open>SetParameter\<close>

definition SetParameter ::
    "EngineConstants \<Rightarrow> Resources \<Rightarrow> uint8_t \<Rightarrow> uint8_t \<Rightarrow> State \<Rightarrow> State option" where
  "SetParameter e res parameter_index parameter_value s =
     (let index = uint parameter_index;
          s1 = s\<lparr>patch := (patch s)(index + 1 := parameter_value)\<rparr>
      in case (if PRM_ENV_ATTACK_1 e \<le> index \<and> index \<le> PRM_LFO_RATE_2 e
               then UpdateModulationIncrements e res s1 else Some s1) of
           None \<Rightarrow> None
         | Some s2 \<Rightarrow>
            (let s3 = (if index \<le> PRM_OSC_SHAPE_2 e \<or> index = PRM_MIX_SUB_OSC_SHAPE e
                       then UpdateOscillatorAlgorithms s2 else s2)
             in if index = PRM_ARP_TEMPO e
                then UpdateModulationIncrements e res (call (controller_SetTempo parameter_value) s3)
                else if index = PRM_ARP_OCTAVE e
                then Some (call (controller_SetOctaves parameter_value) s3)
                else if index = PRM_ARP_PATTERN e
                then Some (call (controller_SetPattern parameter_value) s3)
                else if index = PRM_ARP_SWING e
                then Some (call (controller_SetSwing parameter_value) s3)
                else if index = PRM_ARP_PATTERN_SIZE e
                then Some (call (controller_set_pattern_size parameter_value) s3)
                else Some s3))"

subsection \<open>ControlChange\<close>

definition ControlChange ::
    "Constants \<Rightarrow> EngineConstants \<Rightarrow> Resources \<Rightarrow> uint8_t \<Rightarrow> uint8_t \<Rightarrow> uint8_t \<Rightarrow> State
     \<Rightarrow> State option" where
  "ControlChange c e res channel controller value s =
     (if controller = kModulationWheelMsb e
      then Some (s\<lparr>modulation_sources := (modulation_sources s)
                      (MOD_SRC_WHEEL c := push_bit 1 value)\<rparr>)
      else if controller = kDataEntryMsb e
      then (if uint (nrpn_parameter_number s) < sizeof_Patch e - 1
            then SetParameter e res (nrpn_parameter_number s) value s
            else Some s)
      else if controller = kPortamentoTimeMsb e
      then Some (s\<lparr>patch := (patch s)(85 := value)\<rparr>)
      else if controller = kRelease e
      then Some (s\<lparr>patch := (patch s)(24 := value)\<rparr>)
      else if controller = kAttack e
      then Some (s\<lparr>patch := (patch s)(18 := value)\<rparr>)
      else if controller = kHarmonicIntensity e
      then Some (s\<lparr>patch := (patch s)(14 := value)\<rparr>)
      else if controller = kBrightness e
      then Some (s\<lparr>patch := (patch s)(13 := value)\<rparr>)
      else if controller = kNrpnMsb e
      then Some (s\<lparr>nrpn_parameter_number := value\<rparr>)
      else Some s)"

text \<open>A stream of controller messages (channel, controller, value), handled in order.\<close>

fun ControlChanges ::
    "Constants \<Rightarrow> EngineConstants \<Rightarrow> Resources \<Rightarrow> (uint8_t \<times> uint8_t \<times> uint8_t) list \<Rightarrow> State
     \<Rightarrow> State option" where
  "ControlChanges c e res [] s = Some s"
| "ControlChanges c e res ((channel, controller, value) # ms) s =
     (case ControlChange c e res channel controller value s of
        None \<Rightarrow> None
      | Some t \<Rightarrow> ControlChanges c e res ms t)"

subsection \<open>SynthesisEngine::Control\<close>

text \<open>What the collaborators return during one control tick of the engine: the
  rendered LFO values, the noise generator, whether the note dispatcher advanced a step,
  the sequence step it is at, whether an arpeggiator note sounds, and the envelopes
  of each voice.\<close>

record EngineInput =
  lfo_render :: "int \<Rightarrow> uint8_t"
  random_msb :: uint8_t
  controller_Control_result :: uint8_t
  sequence_step :: uint8_t
  has_arpeggiator_note :: uint8_t
  voice_input :: "nat \<Rightarrow> ControlInput"

text \<open>The first part of the tick: the LFOs advance and are rendered into the global
  sources, the note dispatcher runs, and when it has advanced a step the reset
  counter is incremented and compared with the cadence.\<close>

definition Control_lfos ::
    "Constants \<Rightarrow> EngineConstants \<Rightarrow> Resources \<Rightarrow> EngineInput \<Rightarrow> State \<Rightarrow> State option" where
  "Control_lfos c e res inp s =
     (let s1 = fold (\<lambda>i t. t\<lparr>lfo := (lfo t)(int i := Lfo_Increment (lfo t (int i))),
                             modulation_sources := (modulation_sources t)
                               (MOD_SRC_LFO_1 c + int i := lfo_render inp (int i))\<rparr>)
                    [0..<kNumLfos] s;
          s2 = s1\<lparr>modulation_sources := (modulation_sources s1)
                    (MOD_SRC_RANDOM c := random_msb inp)\<rparr>;
          s3 = call controller_Control s2
      in if controller_Control_result inp \<noteq> 0
         then (let s4 = s3\<lparr>lfo_reset_counter := lfo_reset_counter s3 + 1\<rparr>
               in if lfo_reset_counter s4 = num_lfo_reset_steps s4
                  then (case UpdateModulationIncrements e res s4 of
                          None \<Rightarrow> None
                        | Some s5 \<Rightarrow>
                            Some ((fold (\<lambda>i t. if lfo_to_reset t AND push_bit i 1 \<noteq> 0
                                                then t\<lparr>lfo := (lfo t)(int i := Lfo_Reset (lfo t (int i)))\<rparr>
                                                else t)
                                        [0..<kNumLfos] s5)
                                  \<lparr>lfo_reset_counter := 0\<rparr>))
                  else Some s4)
         else Some s3)"

fun Control_voices ::
    "Constants \<Rightarrow> Resources \<Rightarrow> EngineInput \<Rightarrow> nat list \<Rightarrow> State \<Rightarrow> State option" where
  "Control_voices c res inp [] s = Some s"
| "Control_voices c res inp (i # is) s =
     (case Control c res (voice_input inp i) s of
        None \<Rightarrow> None
      | Some t \<Rightarrow> Control_voices c res inp is t)"

definition SynthesisEngine_Control ::
    "Constants \<Rightarrow> EngineConstants \<Rightarrow> Resources \<Rightarrow> EngineInput \<Rightarrow> State \<Rightarrow> State option" where
  "SynthesisEngine_Control c e res inp s =
     (case Control_lfos c e res inp s of
        None \<Rightarrow> None
      | Some s1 \<Rightarrow>
          Control_voices c res inp [0..<kNumVoices e]
            (s1\<lparr>modulation_sources := (modulation_sources s1)
                   (MOD_SRC_SEQ c := sequence_step inp,
                    MOD_SRC_STEP c := (if has_arpeggiator_note inp \<noteq> 0 then 255 else 0))\<rparr>))"

text \<open>A run of control ticks with the given inputs, restricted to the first part of
  each tick.\<close>

fun Control_lfos_run ::
    "Constants \<Rightarrow> EngineConstants \<Rightarrow> Resources \<Rightarrow> EngineInput list \<Rightarrow> State \<Rightarrow> State option" where
  "Control_lfos_run c e res [] s = Some s"
| "Control_lfos_run c e res (inp # inps) s =
     (case Control_lfos c e res inp s of
        None \<Rightarrow> None
      | Some t \<Rightarrow> Control_lfos_run c e res inps t)"

text \<open>One assignment of the engine's constants: the parameters numbered by their offset
  in the patch, the controller numbers of the MIDI standard, one voice and a note
  dispatcher whose beat always lasts 1000 ticks.\<close>

definition sample_engine :: EngineConstants where
  "sample_engine =
    \<lparr>PRM_OSC_SHAPE_2 = 1, PRM_MIX_SUB_OSC_SHAPE = 11, PRM_ENV_ATTACK_1 = 16,
     PRM_LFO_RATE_2 = 27, PRM_ARP_TEMPO = 70, PRM_ARP_OCTAVE = 71, PRM_ARP_PATTERN = 72,
     PRM_ARP_SWING = 73, PRM_ARP_PATTERN_SIZE = 94, sizeof_Patch = 96,
     kModulationWheelMsb = 1, kDataEntryMsb = 6, kPortamentoTimeMsb = 5, kRelease = 72,
     kAttack = 73, kHarmonicIntensity = 71, kBrightness = 74, kNrpnMsb = 99,
     kNumVoices = 1, estimated_beat_duration = (\<lambda>tr. 1000)\<rparr>"

section \<open>Reaching the target pitch\<close>

text \<open>The slide is over when the current pitch is the target and the increment is zero.\<close>

definition slide_finished :: "State \<Rightarrow> bool" where
  "slide_finished s \<longleftrightarrow> pitch_value s = pitch_target s \<and> pitch_increment s = 0"

section \<open>The default patch and a start state\<close>

definition patch_of_bytes :: "uint8_t list \<Rightarrow> Patch" where
  "patch_of_bytes bs k = (if 0 \<le> k \<and> k < int (length bs) then bs ! nat k else 0)"

text \<open>The initialiser \<open>empty_patch\<close> of synthesis_engine.cc, which \<open>ResetPatch\<close> loads.\<close>

definition empty_patch :: "Constants \<Rightarrow> uint8_t list" where
  "empty_patch c =
    [99,
     WAVEFORM_SAW c, WAVEFORM_SQUARE c, 0, 32,
     0, 0, 0, 0,
     24, 0, 0, WAVEFORM_SQUARE c,
     110, 0, 10, 0,
     20, 0,
     60, 40,
     20, 80,
     60, 40,
     LFO_WAVEFORM_TRIANGLE c, LFO_WAVEFORM_TRIANGLE c, 96, 3,
     word_of_int (MOD_SRC_LFO_1 c), word_of_int (MOD_DST_VCO_1 c), 0,
     word_of_int (MOD_SRC_LFO_1 c), word_of_int (MOD_DST_VCO_2 c), 0,
     word_of_int (MOD_SRC_LFO_1 c), word_of_int (MOD_DST_PWM_1 c), 0,
     word_of_int (MOD_SRC_LFO_1 c), word_of_int (MOD_DST_PWM_2 c), 0,
     word_of_int (MOD_SRC_LFO_2 c), word_of_int (MOD_DST_MIX_BALANCE c), 0,
     word_of_int (MOD_SRC_NOTE c), word_of_int (MOD_DST_FILTER_CUTOFF c), 58,
     word_of_int (MOD_SRC_ENV_2 c), word_of_int (MOD_DST_VCA c), 63,
     word_of_int (MOD_SRC_VELOCITY c), word_of_int (MOD_DST_VCA c), 16,
     word_of_int (MOD_SRC_PITCH_BEND c), word_of_int (MOD_DST_VCO_1_2_FINE c), 32,
     word_of_int (MOD_SRC_LFO_1 c), word_of_int (MOD_DST_VCO_1_2_FINE c), 16,
     word_of_int (MOD_SRC_ASSIGNABLE_1 c), word_of_int (MOD_DST_PWM_1 c), 0,
     word_of_int (MOD_SRC_ASSIGNABLE_2 c), word_of_int (MOD_DST_FILTER_CUTOFF c), 0,
     word_of_int (MOD_SRC_CV_1 c), word_of_int (MOD_DST_FILTER_CUTOFF c), 0,
     word_of_int (MOD_SRC_CV_2 c), word_of_int (MOD_DST_FILTER_CUTOFF c), 0,
     120, 0, 0, 0,
     0x00, 0x00, 0xff, 0xff, 0xcc, 0xcc, 0x44, 0x44,
     0, 0, 0, 1,
     110, 101, 119, 32, 32, 32, 32, 32, 16]"

text \<open>
  One assignment of the constants and tables, on which the model can be run: the
  enumerations numbered in the order in which the sources list them, twelve
  semitones of 128 pitch units to the octave, and flat tables.
\<close>

definition sample_constants :: Constants where
  "sample_constants =
    \<lparr>kNumGlobalModulationSources = 11, kSavedModulationMatrixSize = 10,
     MOD_SRC_LFO_1 = 0, MOD_SRC_LFO_2 = 1, MOD_SRC_SEQ = 2, MOD_SRC_STEP = 3,
     MOD_SRC_WHEEL = 4, MOD_SRC_PITCH_BEND = 5, MOD_SRC_ASSIGNABLE_1 = 6,
     MOD_SRC_ASSIGNABLE_2 = 7, MOD_SRC_CV_1 = 8, MOD_SRC_CV_2 = 9, MOD_SRC_RANDOM = 10,
     MOD_SRC_ENV_1 = 11, MOD_SRC_ENV_2 = 12, MOD_SRC_VELOCITY = 13, MOD_SRC_NOTE = 14,
     MOD_SRC_GATE = 15,
     MOD_DST_FILTER_CUTOFF = 0, MOD_DST_VCA = 1, MOD_DST_PWM_1 = 2, MOD_DST_PWM_2 = 3,
     MOD_DST_VCO_1 = 4, MOD_DST_VCO_2 = 5, MOD_DST_VCO_1_2_FINE = 6,
     MOD_DST_MIX_BALANCE = 7, MOD_DST_MIX_NOISE = 8, MOD_DST_MIX_SUB_OSC = 9,
     MOD_DST_FILTER_RESONANCE = 10,
     kOctave = 1536, kLowestNote = 0, kHighestNote = 15360, kPitchTableStart = 12288,
     ATTACK = 0, RELEASE = 3,
     WAVEFORM_SAW = 3, WAVEFORM_SQUARE = 4, LFO_WAVEFORM_TRIANGLE = 0,
     WAVEFORM_FM = 9, WAVEFORM_VOWEL = 12,
     RING_MOD = 2, XOR_op = 3, SYNC = 1\<rparr>"

definition sample_resources :: Resources where
  "sample_resources =
    \<lparr>lut_res_env_portamento_increments = (\<lambda>k. if k = 0 then 65535 else 100),
     lut_res_scale = (\<lambda>r k. 0),
     lut_res_oscillator_increments = (\<lambda>k. 32768),
     lut_res_lfo_increments = (\<lambda>k. 256)\<rparr>"

text \<open>
  The state that \<open>SynthesisEngine::Init\<close> leaves, as far as the sources determine it.
  The statics start at zero, except \<open>nrpn_parameter_number_\<close>, which its definition
  initialises to \<open>0xff\<close>. \<open>ResetPatch\<close> loads the default patch; \<open>Reset\<close> clears the
  global modulation sources, sets the pitch-bend source to 128 and resets the LFOs;
  \<open>Voice::Init\<close> sets the current pitch to 0 and the signal to 128. \<open>TouchPatch\<close>, which
  \<open>ResetPatch\<close> calls, is declared outside the sources: what it does to the increments
  of the LFOs, to the reset cadence and to the collaborators is not part of this state.
\<close>

definition power_on :: "Constants \<Rightarrow> State" where
  "power_on c =
    \<lparr>modulation_sources = (\<lambda>k. 0)(MOD_SRC_PITCH_BEND c := 128),
     patch = patch_of_bytes (empty_patch c),
     lfo = (\<lambda>k. \<lparr>lfo_phase = 0, lfo_increment = 0, lfo_waveform = 0\<rparr>),
     nrpn_parameter_number = 0xff, num_lfo_reset_steps = 0, lfo_reset_counter = 0,
     lfo_to_reset = 0, dead = 0, pitch_increment = 0, pitch_target = 0, pitch_value = 0,
     voice_modulation_sources = (\<lambda>k. 0), modulation_destinations = (\<lambda>k. 0),
     dst = (\<lambda>k. 0), signal = 128, osc1_phase_msb = 0, calls = []\<rparr>"

text \<open>A voice that holds note 60 while the portamento time of the patch is 64.\<close>

definition sliding :: State where
  "sliding = (power_on sample_constants)
     \<lparr>pitch_value := 7680, patch := (patch (power_on sample_constants))(85 := 64)\<rparr>"

text \<open>The tables again, with every entry of the portamento table 23969, and with every
  entry 0.\<close>

definition wide_resources :: Resources where
  "wide_resources = sample_resources\<lparr>lut_res_env_portamento_increments := (\<lambda>k. 23969)\<rparr>"

definition still_resources :: Resources where
  "still_resources = sample_resources\<lparr>lut_res_env_portamento_increments := (\<lambda>k. 0)\<rparr>"

text \<open>A voice at pitch 1 on which the note number 175 has been triggered.\<close>

definition wrapping_slide :: State where
  "wrapping_slide =
     Trigger sample_constants wide_resources 175 100 0
       ((power_on sample_constants)\<lparr>pitch_value := 1\<rparr>)"

text \<open>The default patch with every modulation amount set to zero, envelopes that are
  fully open, and the requirement that the destination enumerators differ.\<close>

definition unmodulated :: "Constants \<Rightarrow> State" where
  "unmodulated c = (power_on c)
     \<lparr>patch := (\<lambda>k. if 31 \<le> k \<and> k < 71 \<and> (k - 31) mod 3 = 0 then 0
                     else patch (power_on c) k)\<rparr>"

definition destinations_distinct :: "Constants \<Rightarrow> bool" where
  "destinations_distinct c \<longleftrightarrow>
     distinct [MOD_DST_FILTER_CUTOFF c, MOD_DST_VCA c, MOD_DST_PWM_1 c, MOD_DST_PWM_2 c,
               MOD_DST_VCO_1 c, MOD_DST_VCO_2 c, MOD_DST_VCO_1_2_FINE c,
               MOD_DST_MIX_BALANCE c, MOD_DST_MIX_NOISE c, MOD_DST_MIX_SUB_OSC c,
               MOD_DST_FILTER_RESONANCE c]"

definition envelopes_open :: ControlInput where
  "envelopes_open = \<lparr>envelope_dead = (\<lambda>i. 0), envelope_value = (\<lambda>i. 16383),
                       envelope_stage = (\<lambda>i. 2)\<rparr>"

text \<open>Row \<open>i\<close> of the matrix, read from the state \<open>s\<close> and applied to the state \<open>t\<close>.\<close>

definition matrix_row :: "Constants \<Rightarrow> State \<Rightarrow> nat \<Rightarrow> State \<Rightarrow> State" where
  "matrix_row c s i t =
     (if modulation_amount (patch s) i = 0 then t
      else apply_modulation c
             (if int i = kSavedModulationMatrixSize c - 1
              then SignedMulScale8 (modulation_amount (patch s) i)
                     (modulation_sources s (MOD_SRC_WHEEL c))
              else modulation_amount (patch s) i)
             (uint (modulation_source (patch s) i))
             (uint (modulation_destination (patch s) i)) t)"

text \<open>The default patch with a single modulation: row \<open>k\<close> is given, every other amount
  is zero; every global source has the given value, except the wheel.\<close>

definition one_row :: "nat \<Rightarrow> uint8_t \<Rightarrow> uint8_t \<Rightarrow> int8_t \<Rightarrow> uint8_t \<Rightarrow> uint8_t \<Rightarrow> State" where
  "one_row k source destination amount source_value wheel =
     (unmodulated sample_constants)
       \<lparr>patch := (patch (unmodulated sample_constants))
                   (29 + 3 * int k := source, 30 + 3 * int k := destination,
                    31 + 3 * int k := amount),
        modulation_sources := (\<lambda>j. source_value)(MOD_SRC_WHEEL sample_constants := wheel)\<rparr>"

text \<open>The evaluation as the specification words it: the persisted rows as they are
  stored, then one more, synthesized row that takes source and destination from the
  last persisted row and, as its amount, that row's amount scaled by the wheel.\<close>

definition spec_matrix_evaluation :: "Constants \<Rightarrow> State \<Rightarrow> State" where
  "spec_matrix_evaluation c s =
     (let saved = nat (kSavedModulationMatrixSize c);
          t = fold (\<lambda>i t. if modulation_amount (patch s) i = 0 then t
                           else apply_modulation c (modulation_amount (patch s) i)
                                  (uint (modulation_source (patch s) i))
                                  (uint (modulation_destination (patch s) i)) t)
                   [0..<saved] s
      in if modulation_amount (patch s) (saved - 1) = 0 then t
         else apply_modulation c
                (SignedMulScale8 (modulation_amount (patch s) (saved - 1))
                   (modulation_sources s (MOD_SRC_WHEEL c)))
                (uint (modulation_source (patch s) (saved - 1)))
                (uint (modulation_destination (patch s) (saved - 1))) t)"

section \<open>Sample voices, inputs and measures of the engine\<close>

text \<open>A voice of the default patch with the XOR operator selected, the given shape of
  oscillator 1 and the given resolved sub-oscillator level; every other resolved
  destination, the mix balance among them, is 0.\<close>

definition xor_voice :: "uint8_t \<Rightarrow> uint8_t \<Rightarrow> State" where
  "xor_voice shape sub_level =
     (power_on sample_constants)
       \<lparr>patch := (patch (power_on sample_constants))(1 := shape, 7 := 3),
        modulation_destinations := (\<lambda>k. 0)(9 := sub_level)\<rparr>"

text \<open>Oscillator 1 renders \<open>0b10110010\<close>, oscillator 2 \<open>0b01101100\<close>; the sub-oscillator
  and the noise generator render 0.\<close>

definition xor_samples :: AudioInput where
  "xor_samples = \<lparr>osc_2_render = 0x6C, osc_1_render = 0xB2, sub_osc_render = 0,
                    random_state_msb = 0, osc_1_phase = 0\<rparr>"

text \<open>The calls that reach the note dispatcher's copy of the arpeggiator settings.\<close>

fun is_controller_call :: "Call \<Rightarrow> bool" where
  "is_controller_call (controller_SetTempo v) = True"
| "is_controller_call (controller_SetOctaves v) = True"
| "is_controller_call (controller_SetPattern v) = True"
| "is_controller_call (controller_SetSwing v) = True"
| "is_controller_call (controller_set_pattern_size v) = True"
| "is_controller_call _ = False"

text \<open>The beat duration that the note dispatcher reports never makes the divisor of a
  tempo-synced increment zero.\<close>

definition beat_defined :: "EngineConstants \<Rightarrow> bool" where
  "beat_defined e \<longleftrightarrow>
     (\<forall>tr r. r < 16 \<longrightarrow> synced_increment (estimated_beat_duration e tr) r \<noteq> None)"

text \<open>What \<open>SetParameter\<close> is to forward to the note dispatcher for a parameter.\<close>

definition forwarded :: "EngineConstants \<Rightarrow> uint8_t \<Rightarrow> uint8_t \<Rightarrow> Call list" where
  "forwarded e parameter_index parameter_value =
     (if uint parameter_index = PRM_ARP_TEMPO e then [controller_SetTempo parameter_value]
      else if uint parameter_index = PRM_ARP_OCTAVE e then [controller_SetOctaves parameter_value]
      else if uint parameter_index = PRM_ARP_PATTERN e then [controller_SetPattern parameter_value]
      else if uint parameter_index = PRM_ARP_SWING e then [controller_SetSwing parameter_value]
      else if uint parameter_index = PRM_ARP_PATTERN_SIZE e
      then [controller_set_pattern_size parameter_value]
      else [])"

text \<open>The number of ticks of a run at which the note dispatcher advanced a step.\<close>

definition step_advances :: "EngineInput list \<Rightarrow> nat" where
  "step_advances inps = length (filter (\<lambda>inp. controller_Control_result inp \<noteq> 0) inps)"

text \<open>The product of \<open>1 + rate\<close> over the tempo-synced LFOs of a patch, as a natural
  number; 0 when no LFO is synced.\<close>

definition reset_cadence :: "Patch \<Rightarrow> nat" where
  "reset_cadence p =
     (let r0 = lfo_rate p 0; r1 = lfo_rate p 1
      in if r0 < 16 \<and> r1 < 16 then (1 + unat r0) * (1 + unat r1)
         else if r0 < 16 then 1 + unat r0
         else if r1 < 16 then 1 + unat r1
         else 0)"

text \<open>The engine at power-on, with the given rates of the two LFOs.\<close>

definition synced_engine :: "uint8_t \<Rightarrow> uint8_t \<Rightarrow> State" where
  "synced_engine r0 r1 =
     (power_on sample_constants)
       \<lparr>patch := (patch (power_on sample_constants))(27 := r0, 28 := r1)\<rparr>"

text \<open>A control tick at which the note dispatcher advances a step.\<close>

definition step_input :: EngineInput where
  "step_input = \<lparr>lfo_render = (\<lambda>k. 0), random_msb = 0, controller_Control_result = 1,
                   sequence_step = 0, has_arpeggiator_note = 0,
                   voice_input = (\<lambda>i. envelopes_open)\<rparr>"

section \<open>Portamento\<close>

lemma TriggerEnvelope_calls:
  "TriggerEnvelope stage s =
   s\<lparr>calls := calls s @ [Envelope_Trigger 0 stage, Envelope_Trigger 1 stage]\<rparr>"
  by (simp add: TriggerEnvelope_def kNumEnvelopes_def call_def numeral_2_eq_2)

text \<open>
  C5. Portamento first-note snap: when the current pitch of the voice is the power-on
  value 0, \<open>Trigger\<close> leaves the current pitch equal to the target pitch it has just
  computed, for every note, velocity, legato flag, scale and portamento time.
\<close>

theorem Trigger_first_note_snap:
  "pitch_value s = 0 \<Longrightarrow>
   pitch_value (Trigger c res note velocity legato s) =
   pitch_target (Trigger c res note velocity legato s)"
  by (simp add: Trigger_def Let_def call_def TriggerEnvelope_calls)

lemmas sample_defs = power_on_def sample_constants_def sample_resources_def
  patch_of_bytes_def empty_patch_def kbd_raga_def kbd_portamento_def

lemma Trigger_note_60_target:
  "pitch_target (Trigger sample_constants sample_resources 60 100 0 (power_on sample_constants)) = 7680"
  by (simp add: Trigger_def Let_def call_def TriggerEnvelope_calls sample_defs)

theorem Trigger_first_note_snap_witness:
  "pitch_value (power_on sample_constants) = 0 \<and>
   pitch_value (Trigger sample_constants sample_resources 60 100 0 (power_on sample_constants)) = 7680"
  using Trigger_first_note_snap [of "power_on sample_constants" sample_constants sample_resources 60 100 0]
  by (simp add: Trigger_note_60_target) (simp add: power_on_def)

lemma sint16_of_int:
  "- 32768 \<le> x \<Longrightarrow> x < 32768 \<Longrightarrow> sint (word_of_int x :: 16 word) = x"
  by (simp add: sint_sbintrunc' signed_take_bit_int_eq_self)

lemma sint16_add:
  "- 32768 \<le> sint a + sint b \<Longrightarrow> sint a + sint b < 32768 \<Longrightarrow>
   sint (a + b :: 16 word) = sint a + sint b"
  by (simp add: sint_word_add signed_take_bit_int_eq_self)

lemma sint16_diff:
  "- 32768 \<le> sint a - sint b \<Longrightarrow> sint a - sint b < 32768 \<Longrightarrow>
   sint (a - b :: 16 word) = sint a - sint b"
  by (simp add: sint_word_diff signed_take_bit_int_eq_self)

lemma slide_finished_fixpoint: "slide_finished s \<Longrightarrow> Control_pitch s = s"
  by (simp add: slide_finished_def Control_pitch_def Let_def)

lemma slide_finished_stays: "slide_finished s \<Longrightarrow> (Control_pitch ^^ m) s = s"
  by (induction m) (simp_all add: slide_finished_fixpoint)

lemma slide_up:
  "0 < sint (pitch_increment s) \<Longrightarrow> 0 \<le> sint (pitch_value s) \<Longrightarrow>
   sint (pitch_value s) \<le> sint (pitch_target s) \<Longrightarrow> sint (pitch_target s) \<le> 16383 \<Longrightarrow>
   sint (pitch_value s) + sint (pitch_increment s) \<le> 32767 \<Longrightarrow>
   \<exists>n. slide_finished ((Control_pitch ^^ n) s)"
proof (induction "nat (sint (pitch_target s) - sint (pitch_value s))" arbitrary: s rule: less_induct)
  case less
  let ?v = "pitch_value s + pitch_increment s"
  have sv: "sint ?v = sint (pitch_value s) + sint (pitch_increment s)"
    using less.prems by (intro sint16_add) auto
  have pos: "0 <s pitch_increment s"
    using less.prems by (simp add: word_sless_alt)
  show ?case
  proof (cases "?v <s pitch_target s")
    case False
    then have "slide_finished (Control_pitch s)"
      using pos by (simp add: Control_pitch_def Let_def slide_finished_def)
    then have "slide_finished ((Control_pitch ^^ 1) s)" by simp
    then show ?thesis by blast
  next
    case True
    let ?s = "s\<lparr>pitch_value := ?v\<rparr>"
    have step: "Control_pitch s = ?s"
      using pos True by (simp add: Control_pitch_def Let_def)
    have lt: "sint ?v < sint (pitch_target s)"
      using True by (simp add: word_sless_alt)
    have "\<exists>n. slide_finished ((Control_pitch ^^ n) ?s)"
    proof (rule less.hyps)
      show "nat (sint (pitch_target ?s) - sint (pitch_value ?s))
            < nat (sint (pitch_target s) - sint (pitch_value s))"
        using lt sv less.prems by simp
    qed (use lt sv less.prems in simp_all)
    then obtain n where "slide_finished ((Control_pitch ^^ n) ?s)" ..
    then have "slide_finished ((Control_pitch ^^ Suc n) s)"
      by (simp add: funpow_swap1 step)
    then show ?thesis by blast
  qed
qed

lemma slide_down:
  "sint (pitch_increment s) < 0 \<Longrightarrow> 0 \<le> sint (pitch_target s) \<Longrightarrow>
   sint (pitch_target s) \<le> sint (pitch_value s) \<Longrightarrow> sint (pitch_value s) \<le> 16383 \<Longrightarrow>
   - 32768 \<le> sint (pitch_value s) + sint (pitch_increment s) \<Longrightarrow>
   \<exists>n. slide_finished ((Control_pitch ^^ n) s)"
proof (induction "nat (sint (pitch_value s) - sint (pitch_target s))" arbitrary: s rule: less_induct)
  case less
  let ?v = "pitch_value s + pitch_increment s"
  have sv: "sint ?v = sint (pitch_value s) + sint (pitch_increment s)"
    using less.prems by (intro sint16_add) auto
  have neg: "\<not> 0 <s pitch_increment s"
    using less.prems by (simp add: word_sless_alt)
  show ?case
  proof (cases "?v <s pitch_target s")
    case True
    then have "slide_finished (Control_pitch s)"
      using neg by (simp add: Control_pitch_def Let_def slide_finished_def)
    then have "slide_finished ((Control_pitch ^^ 1) s)" by simp
    then show ?thesis by blast
  next
    case False
    let ?s = "s\<lparr>pitch_value := ?v\<rparr>"
    have step: "Control_pitch s = ?s"
      using neg False by (simp add: Control_pitch_def Let_def)
    have ge: "sint (pitch_target s) \<le> sint ?v"
      using False by (simp add: word_sless_alt)
    have "\<exists>n. slide_finished ((Control_pitch ^^ n) ?s)"
    proof (rule less.hyps)
      show "nat (sint (pitch_value ?s) - sint (pitch_target ?s))
            < nat (sint (pitch_value s) - sint (pitch_target s))"
        using ge sv less.prems by simp
    qed (use ge sv less.prems in simp_all)
    then obtain n where "slide_finished ((Control_pitch ^^ n) ?s)" ..
    then have "slide_finished ((Control_pitch ^^ Suc n) s)"
      by (simp add: funpow_swap1 step)
    then show ?thesis by blast
  qed
qed



lemma Trigger_pitch_value:
  "pitch_value (Trigger c res note velocity legato s) =
   (if pitch_value s = 0 then pitch_target (Trigger c res note velocity legato s) else pitch_value s)"
  by (simp add: Trigger_def Let_def call_def TriggerEnvelope_calls)

lemma Trigger_pitch_increment:
  "pitch_increment (Trigger c res note velocity legato s) =
   (let t = Trigger c res note velocity legato s;
        delta = pitch_target t - pitch_value t;
        raw = (word_of_int (drop_bit 15 (sint delta *
                 uint (lut_res_env_portamento_increments res (uint (kbd_portamento (patch s))))))
               :: int16_t)
    in if raw = 0 then (if delta <s 0 then - 1 else 1) else raw)"
  by (simp add: Trigger_def Let_def call_def TriggerEnvelope_calls)

lemma scaled_up:
  assumes "0 \<le> d" "0 \<le> l" "l \<le> 65535"
  shows "0 \<le> (d * l) div 32768" "(d * l) div 32768 \<le> 2 * (d::int)"
proof -
  have a: "0 \<le> d * l" using assms by simp
  then show "0 \<le> (d * l) div 32768" by simp
  have "d * l \<le> d * 65535" using assms by (intro mult_left_mono) auto
  then have "(d * l) div 32768 \<le> (d * 65535) div 32768" by (intro zdiv_mono1) auto
  also have "\<dots> \<le> 2 * d" using assms by simp
  finally show "(d * l) div 32768 \<le> 2 * d" .
qed

lemma scaled_down:
  assumes "d < 0" "0 \<le> l" "l \<le> 65535"
  shows "(d * l) div 32768 \<le> 0" "2 * (d::int) \<le> (d * l) div 32768"
proof -
  have a: "d * l \<le> 0" using assms by (simp add: mult_le_0_iff)
  then show "(d * l) div 32768 \<le> 0" by simp
  have "d * 65535 \<le> d * l" using assms by (intro mult_left_mono_neg) auto
  then have "(d * 65535) div 32768 \<le> (d * l) div 32768" by (intro zdiv_mono1) auto
  moreover have "2 * d \<le> (d * 65535) div 32768" using assms by simp
  ultimately show "2 * d \<le> (d * l) div 32768" by simp
qed

lemma Trigger_arrives:
  assumes v0: "0 \<le> sint (pitch_value s)" and v1: "sint (pitch_value s) \<le> 16383"
    and t0: "0 \<le> sint (pitch_target (Trigger c res note velocity legato s))"
    and t1: "sint (pitch_target (Trigger c res note velocity legato s)) \<le> 16383"
  shows "\<exists>n. slide_finished ((Control_pitch ^^ n) (Trigger c res note velocity legato s))"
proof -
  let ?t = "Trigger c res note velocity legato s"
  let ?l = "uint (lut_res_env_portamento_increments res (uint (kbd_portamento (patch s))))"
  let ?delta = "pitch_target ?t - pitch_value ?t"
  let ?d = "sint (pitch_target ?t) - sint (pitch_value ?t)"
  let ?raw = "(?d * ?l) div 32768"
  have w0: "0 \<le> sint (pitch_value ?t)" and w1: "sint (pitch_value ?t) \<le> 16383"
    using v0 v1 t0 t1 by (simp_all add: Trigger_pitch_value)
  have l0: "0 \<le> ?l" and l1: "?l \<le> 65535"
    using uint_lt2p [of "lut_res_env_portamento_increments res (uint (kbd_portamento (patch s)))"]
    by simp_all
  have sd: "sint ?delta = ?d"
    using w0 w1 t0 t1 by (intro sint16_diff) auto
  have inc: "pitch_increment ?t =
     (if (word_of_int ?raw :: int16_t) = 0 then (if ?d < 0 then - 1 else 1) else word_of_int ?raw)"
    by (subst Trigger_pitch_increment) (simp add: Let_def sd drop_bit_eq_div word_sless_alt)
  show ?thesis
  proof (cases "?d < 0")
    case False
    then have d0: "0 \<le> ?d" by simp
    note b = scaled_up [OF d0 l0 l1]
    have sraw: "sint (word_of_int ?raw :: int16_t) = ?raw"
      using b w0 t1 by (intro sint16_of_int) auto
    have "0 < sint (pitch_increment ?t) \<and> sint (pitch_increment ?t) \<le> max 1 (2 * ?d)"
    proof (cases "(word_of_int ?raw :: int16_t) = 0")
      case True
      then show ?thesis using False by (simp add: inc)
    next
      case nz: False
      then have "?raw \<noteq> 0" by auto
      then show ?thesis using nz b sraw by (simp add: inc)
    qed
    then show ?thesis
      using d0 w0 w1 t0 t1 by (intro slide_up) auto
  next
    case True
    note b = scaled_down [OF True l0 l1]
    have sraw: "sint (word_of_int ?raw :: int16_t) = ?raw"
      using b w1 t0 by (intro sint16_of_int) auto
    have "sint (pitch_increment ?t) < 0 \<and> 2 * ?d \<le> sint (pitch_increment ?t)"
    proof (cases "(word_of_int ?raw :: int16_t) = 0")
      case z: True
      then show ?thesis using True by (simp add: inc)
    next
      case nz: False
      then have "?raw \<noteq> 0" by auto
      then show ?thesis using nz b sraw by (simp add: inc)
    qed
    then show ?thesis
      using True w0 w1 t0 t1 by (intro slide_down) auto
  qed
qed


text \<open>
  C4, as amended. The slide never stalls inside the 14-bit pitch range. Let \<open>Trigger\<close>
  be called on a voice whose current pitch lies in \<open>0..16383\<close>, for a note whose target
  pitch lies in it too. If the scaled increment \<open>(delta * increment) >> 15\<close> is zero,
  the stored increment is 1 when the remaining delta is positive and \<open>-1\<close> when it is
  negative. The pitch steps of \<open>Control\<close> that follow reach the state in which the
  current pitch is the target and the increment is zero after finitely many steps, and
  every later step leaves that state as it is.
\<close>

theorem Trigger_slide_never_stalls:
  assumes "0 \<le> sint (pitch_value s)" and "sint (pitch_value s) \<le> 16383"
    and "0 \<le> sint (pitch_target (Trigger c res note velocity legato s))"
    and "sint (pitch_target (Trigger c res note velocity legato s)) \<le> 16383"
  shows "(let t = Trigger c res note velocity legato s;
              delta = sint (pitch_target t) - sint (pitch_value t);
              increment = uint (lut_res_env_portamento_increments res
                                  (uint (kbd_portamento (patch s))))
          in (drop_bit 15 (delta * increment) = 0 \<longrightarrow>
                (0 < delta \<longrightarrow> pitch_increment t = 1) \<and>
                (delta < 0 \<longrightarrow> pitch_increment t = - 1)) \<and>
             (\<exists>n. slide_finished ((Control_pitch ^^ n) t) \<and>
                  (\<forall>m\<ge>n. (Control_pitch ^^ m) t = (Control_pitch ^^ n) t)))"
proof -
  let ?t = "Trigger c res note velocity legato s"
  let ?l = "uint (lut_res_env_portamento_increments res (uint (kbd_portamento (patch s))))"
  let ?d = "sint (pitch_target ?t) - sint (pitch_value ?t)"
  have w: "0 \<le> sint (pitch_value ?t)" "sint (pitch_value ?t) \<le> 16383"
    using assms by (simp_all add: Trigger_pitch_value)
  have sd: "sint (pitch_target ?t - pitch_value ?t) = ?d"
    using w assms by (intro sint16_diff) auto
  have forced: "drop_bit 15 (?d * ?l) = 0 \<Longrightarrow>
      (0 < ?d \<longrightarrow> pitch_increment ?t = 1) \<and> (?d < 0 \<longrightarrow> pitch_increment ?t = - 1)"
    by (subst (1 2) Trigger_pitch_increment) (simp add: Let_def sd word_sless_alt)
  obtain n where n: "slide_finished ((Control_pitch ^^ n) ?t)"
    using Trigger_arrives [OF assms] by blast
  have "(Control_pitch ^^ m) ?t = (Control_pitch ^^ n) ?t" if "n \<le> m" for m
  proof -
    have "(Control_pitch ^^ ((m - n) + n)) ?t = (Control_pitch ^^ (m - n)) ((Control_pitch ^^ n) ?t)"
      by (simp only: funpow_add o_apply)
    then show ?thesis using that by (simp add: slide_finished_stays [OF n])
  qed
  with n forced show ?thesis unfolding Let_def by blast
qed

lemma Trigger_forced_targets:
  "pitch_target (Trigger sample_constants sample_resources 61 100 0 sliding) = 7808"
  "pitch_target (Trigger sample_constants still_resources 59 100 0 sliding) = 7552"
  by (simp_all add: Trigger_def Let_def call_def TriggerEnvelope_calls sample_defs sliding_def
        still_resources_def)

lemma sliding_fields:
  "pitch_value sliding = 7680"
  "lut_res_env_portamento_increments sample_resources (uint (kbd_portamento (patch sliding))) = 100"
  "lut_res_env_portamento_increments still_resources (uint (kbd_portamento (patch sliding))) = 0"
  by (simp_all add: sliding_def sample_resources_def still_resources_def kbd_portamento_def)

theorem Trigger_slide_never_stalls_witness:
  "0 \<le> sint (pitch_value sliding) \<and> sint (pitch_value sliding) \<le> 16383 \<and>
   sint (pitch_target (Trigger sample_constants sample_resources 61 100 0 sliding)) = 7808 \<and>
   sint (pitch_value (Trigger sample_constants sample_resources 61 100 0 sliding)) = 7680 \<and>
   drop_bit 15 ((7808 - 7680) * uint (lut_res_env_portamento_increments sample_resources
                   (uint (kbd_portamento (patch sliding))))) = (0 :: int) \<and>
   pitch_increment (Trigger sample_constants sample_resources 61 100 0 sliding) = 1 \<and>
   (\<exists>n. slide_finished
          ((Control_pitch ^^ n) (Trigger sample_constants sample_resources 61 100 0 sliding))) \<and>
   sint (pitch_target (Trigger sample_constants still_resources 59 100 0 sliding)) = 7552 \<and>
   pitch_increment (Trigger sample_constants still_resources 59 100 0 sliding) = - 1 \<and>
   (\<exists>n. slide_finished
          ((Control_pitch ^^ n) (Trigger sample_constants still_resources 59 100 0 sliding)))"
proof -
  have v: "pitch_value (Trigger c res k velocity legato sliding) = 7680" for c res k velocity legato
    by (simp add: Trigger_pitch_value sliding_fields)
  show ?thesis
    using Trigger_slide_never_stalls [of sliding sample_constants sample_resources 61 100 0]
      Trigger_slide_never_stalls [of sliding sample_constants still_resources 59 100 0]
    by (auto simp add: Trigger_forced_targets sliding_fields v Let_def)
qed

lemma wrapping_slide_fields:
  "pitch_target wrapping_slide = 22400"
  "pitch_value wrapping_slide = 1"
  "pitch_increment wrapping_slide = 16384"
  by (simp_all add: wrapping_slide_def Trigger_def Let_def call_def TriggerEnvelope_calls
        sample_defs wide_resources_def)

lemma wrapping_step:
  assumes "pitch_increment t = 16384" and "pitch_target t = 22400"
    and "pitch_value t + 16384 <s 22400"
  shows "Control_pitch t = t\<lparr>pitch_value := pitch_value t + 16384\<rparr>"
  using assms by (simp add: Control_pitch_def Let_def word_sless_alt)

lemma wrapping_slide_steps:
  "Control_pitch wrapping_slide = wrapping_slide\<lparr>pitch_value := 16385\<rparr>"
  "Control_pitch (wrapping_slide\<lparr>pitch_value := 16385\<rparr>) = wrapping_slide\<lparr>pitch_value := - 32767\<rparr>"
  "Control_pitch (wrapping_slide\<lparr>pitch_value := - 32767\<rparr>) = wrapping_slide\<lparr>pitch_value := - 16383\<rparr>"
  "Control_pitch (wrapping_slide\<lparr>pitch_value := - 16383\<rparr>) = wrapping_slide"
proof -
  show "Control_pitch wrapping_slide = wrapping_slide\<lparr>pitch_value := 16385\<rparr>"
    by (subst wrapping_step) (simp_all add: wrapping_slide_fields word_sless_alt)
  show "Control_pitch (wrapping_slide\<lparr>pitch_value := 16385\<rparr>) =
        wrapping_slide\<lparr>pitch_value := - 32767\<rparr>"
    by (subst wrapping_step) (simp_all add: wrapping_slide_fields word_sless_alt)
  show "Control_pitch (wrapping_slide\<lparr>pitch_value := - 32767\<rparr>) =
        wrapping_slide\<lparr>pitch_value := - 16383\<rparr>"
    by (subst wrapping_step) (simp_all add: wrapping_slide_fields word_sless_alt)
  have "wrapping_slide\<lparr>pitch_value := 1\<rparr> = wrapping_slide"
    using wrapping_slide_fields(2) by (metis State.surjective State.update_convs(11))
  then show "Control_pitch (wrapping_slide\<lparr>pitch_value := - 16383\<rparr>) = wrapping_slide"
    by (subst wrapping_step) (simp_all add: wrapping_slide_fields word_sless_alt)
qed

lemma wrapping_slide_iterates:
  "(Control_pitch ^^ 2) wrapping_slide = wrapping_slide\<lparr>pitch_value := - 32767\<rparr>"
  "(Control_pitch ^^ 3) wrapping_slide = wrapping_slide\<lparr>pitch_value := - 16383\<rparr>"
  "(Control_pitch ^^ 4) wrapping_slide = wrapping_slide"
  by (simp_all add: wrapping_slide_steps eval_nat_numeral)

lemma wrapping_slide_cycle:
  "(Control_pitch ^^ (4 * q + r)) wrapping_slide = (Control_pitch ^^ r) wrapping_slide"
proof (induction q)
  case 0
  then show ?case by simp
next
  case (Suc q)
  have "(Control_pitch ^^ ((4 * q + r) + 4)) wrapping_slide =
        (Control_pitch ^^ (4 * q + r)) ((Control_pitch ^^ 4) wrapping_slide)"
    by (simp only: funpow_add o_apply)
  then show ?case using Suc by (simp add: algebra_simps wrapping_slide_iterates(3))
qed

lemma wrapping_slide_unfinished:
  "\<not> slide_finished wrapping_slide"
  "\<not> slide_finished (Control_pitch wrapping_slide)"
  "\<not> slide_finished ((Control_pitch ^^ 2) wrapping_slide)"
  "\<not> slide_finished ((Control_pitch ^^ 3) wrapping_slide)"
  by (simp_all add: slide_finished_def wrapping_slide_fields wrapping_slide_steps
        wrapping_slide_iterates)

lemma wrapping_slide_never_arrives:
  "\<not> slide_finished ((Control_pitch ^^ m) wrapping_slide)"
proof -
  have c: "(Control_pitch ^^ m) wrapping_slide =
        (Control_pitch ^^ (m mod 4)) wrapping_slide"
    using wrapping_slide_cycle [of "m div 4" "m mod 4"] by simp
  have "m mod 4 < 4" by simp
  then have "m mod 4 = 0 \<or> m mod 4 = 1 \<or> m mod 4 = 2 \<or> m mod 4 = 3" by arith
  then show ?thesis
    unfolding c using wrapping_slide_unfinished by (elim disjE) simp_all
qed

text \<open>
  C4, as stated, fails outside the 14-bit pitch range. On a voice at pitch 1, the note
  number 175 (a value of the parameter's type above the range of MIDI notes) has the
  target 22400; with the portamento table entry 23969 the increment is 16384, and the
  16-bit pitch wraps before the step of \<open>Control\<close> sees it pass the target: the pitch
  takes the values 1, 16385, -32767 and -16383 and is back at 1 after four steps, with
  the same increment, so the target is never reached.
\<close>

theorem wrapping_slide_counterexample:
  "pitch_value ((power_on sample_constants)\<lparr>pitch_value := 1\<rparr>) = 1 \<and>
   pitch_target wrapping_slide = 22400 \<and>
   pitch_value wrapping_slide = 1 \<and>
   pitch_increment wrapping_slide = 16384 \<and>
   pitch_value (Control_pitch wrapping_slide) = 16385 \<and>
   pitch_value ((Control_pitch ^^ 2) wrapping_slide) = - 32767 \<and>
   pitch_value ((Control_pitch ^^ 3) wrapping_slide) = - 16383 \<and>
   (Control_pitch ^^ 4) wrapping_slide = wrapping_slide \<and>
   \<not> slide_finished wrapping_slide \<and>
   \<not> slide_finished (Control_pitch wrapping_slide) \<and>
   \<not> slide_finished ((Control_pitch ^^ 2) wrapping_slide) \<and>
   \<not> slide_finished ((Control_pitch ^^ 3) wrapping_slide)"
  using wrapping_slide_unfinished
  by (simp add: wrapping_slide_fields wrapping_slide_steps wrapping_slide_iterates)

section \<open>Modulation amounts of zero\<close>

lemma sample_constants_simps:
  "kNumGlobalModulationSources sample_constants = 11"
  "kSavedModulationMatrixSize sample_constants = 10"
  "MOD_SRC_LFO_1 sample_constants = 0"
  "MOD_SRC_LFO_2 sample_constants = 1"
  "MOD_SRC_SEQ sample_constants = 2"
  "MOD_SRC_STEP sample_constants = 3"
  "MOD_SRC_WHEEL sample_constants = 4"
  "MOD_SRC_PITCH_BEND sample_constants = 5"
  "MOD_SRC_ASSIGNABLE_1 sample_constants = 6"
  "MOD_SRC_ASSIGNABLE_2 sample_constants = 7"
  "MOD_SRC_CV_1 sample_constants = 8"
  "MOD_SRC_CV_2 sample_constants = 9"
  "MOD_SRC_RANDOM sample_constants = 10"
  "MOD_SRC_ENV_1 sample_constants = 11"
  "MOD_SRC_ENV_2 sample_constants = 12"
  "MOD_SRC_VELOCITY sample_constants = 13"
  "MOD_SRC_NOTE sample_constants = 14"
  "MOD_SRC_GATE sample_constants = 15"
  "MOD_DST_FILTER_CUTOFF sample_constants = 0"
  "MOD_DST_VCA sample_constants = 1"
  "MOD_DST_PWM_1 sample_constants = 2"
  "MOD_DST_PWM_2 sample_constants = 3"
  "MOD_DST_VCO_1 sample_constants = 4"
  "MOD_DST_VCO_2 sample_constants = 5"
  "MOD_DST_VCO_1_2_FINE sample_constants = 6"
  "MOD_DST_MIX_BALANCE sample_constants = 7"
  "MOD_DST_MIX_NOISE sample_constants = 8"
  "MOD_DST_MIX_SUB_OSC sample_constants = 9"
  "MOD_DST_FILTER_RESONANCE sample_constants = 10"
  "kOctave sample_constants = 1536"
  "kLowestNote sample_constants = 0"
  "kHighestNote sample_constants = 15360"
  "kPitchTableStart sample_constants = 12288"
  "ATTACK sample_constants = 0"
  "RELEASE sample_constants = 3"
  "WAVEFORM_SAW sample_constants = 3"
  "WAVEFORM_SQUARE sample_constants = 4"
  "LFO_WAVEFORM_TRIANGLE sample_constants = 0"
  "WAVEFORM_FM sample_constants = 9"
  "WAVEFORM_VOWEL sample_constants = 12"
  "RING_MOD sample_constants = 2"
  "XOR_op sample_constants = 3"
  "SYNC sample_constants = 1"
  by (simp_all add: sample_constants_def)

lemma unmodulated_amounts:
  "j < kModulationMatrixSize \<Longrightarrow> modulation_amount (patch (unmodulated c)) j = 0"
  by (simp add: unmodulated_def modulation_amount_def kModulationMatrixSize_def)

lemma sample_destinations_distinct: "destinations_distinct sample_constants"
  by (simp add: destinations_distinct_def sample_constants_simps)

lemma modulation_entry_zero:
  "modulation_amount (patch s) i = 0 \<Longrightarrow> modulation_entry c i s = s"
  by (simp add: modulation_entry_def)

lemma modulation_matrix_loop_zero:
  "(\<And>j. j < kModulationMatrixSize \<Longrightarrow> modulation_amount (patch s) j = 0) \<Longrightarrow>
   modulation_matrix_loop c i s = s"
proof (induction c i s rule: modulation_matrix_loop.induct)
  case (1 c i s)
  show ?case
  proof (cases "i < kModulationMatrixSize")
    case True
    then have e: "modulation_entry c i s = s"
      using "1.prems" by (simp add: modulation_entry_zero)
    have "modulation_matrix_loop c (Suc i) (modulation_entry c i s) = modulation_entry c i s"
      using True "1.prems" e by (intro "1.IH") simp_all
    then show ?thesis
      using True e by (subst modulation_matrix_loop.simps) simp
  next
    case False
    then show ?thesis by (subst modulation_matrix_loop.simps) simp
  qed
qed

lemma Control_modulation_zero:
  assumes "\<And>j. j < kModulationMatrixSize \<Longrightarrow> modulation_amount (patch s) j = 0"
  shows "Control_modulation c inp s =
         store_destinations c (filter_modulations c (Control_load c (Control_sources c inp s)))"
proof -
  have "patch (Control_load c (Control_sources c inp s)) = patch s"
    by (simp add: Control_load_def Control_sources_def)
  then show ?thesis
    using assms by (simp add: Control_modulation_def modulation_matrix_loop_zero)
qed

lemma unmodulated_destinations:
  fixes c :: Constants and t :: State
  assumes d: "destinations_distinct c"
  defines "l \<equiv> Control_load c t"
  defines "s' \<equiv> store_destinations c (filter_modulations c l)"
  shows "modulation_destinations s' (MOD_DST_VCA c) = 255"
    and "modulation_destinations s' (MOD_DST_PWM_1 c) =
            ucast (signed_drop_bit 7 (push_bit 7 (ucast (osc_parameter (patch t) 0)) :: int16_t))"
    and "modulation_destinations s' (MOD_DST_PWM_2 c) =
            ucast (signed_drop_bit 7 (push_bit 7 (ucast (osc_parameter (patch t) 1)) :: int16_t))"
    and "modulation_destinations s' (MOD_DST_MIX_BALANCE c) =
            ShiftRight6 (push_bit 8 (ucast (mix_balance (patch t))))"
    and "modulation_destinations s' (MOD_DST_MIX_NOISE c) =
            ucast (signed_drop_bit 8 (push_bit 8 (ucast (mix_noise (patch t))) :: int16_t))"
    and "modulation_destinations s' (MOD_DST_MIX_SUB_OSC c) =
            ucast (signed_drop_bit 7 (push_bit 8 (ucast (mix_sub_osc (patch t))) :: int16_t))"
    and "modulation_destinations s' (MOD_DST_FILTER_RESONANCE c) =
            ShiftRight6 (push_bit 8 (ucast (filter_resonance (patch t))))"
    and "dst s' (MOD_DST_VCO_1 c) = 8192"
    and "dst s' (MOD_DST_VCO_2 c) = 8192"
    and "dst s' (MOD_DST_VCO_1_2_FINE c) = 8192"
    and "modulation_destinations s' (MOD_DST_FILTER_CUTOFF c) =
            ShiftRight6 (dst (filter_modulations c l) (MOD_DST_FILTER_CUTOFF c))"
    and "dst l (MOD_DST_FILTER_CUTOFF c) = push_bit 7 (ucast (filter_cutoff (patch t)))"
proof -
  note defs = s'_def l_def store_destinations_def filter_modulations_def Control_load_def Let_def
  have MOD_DST_FILTER_CUTOFF: "MOD_DST_FILTER_CUTOFF c \<notin> {MOD_DST_VCA c, MOD_DST_PWM_1 c, MOD_DST_PWM_2 c, MOD_DST_VCO_1 c, MOD_DST_VCO_2 c, MOD_DST_VCO_1_2_FINE c, MOD_DST_MIX_BALANCE c, MOD_DST_MIX_NOISE c, MOD_DST_MIX_SUB_OSC c, MOD_DST_FILTER_RESONANCE c}"
    using d unfolding destinations_distinct_def by auto
  have MOD_DST_VCA: "MOD_DST_VCA c \<notin> {MOD_DST_FILTER_CUTOFF c, MOD_DST_PWM_1 c, MOD_DST_PWM_2 c, MOD_DST_VCO_1 c, MOD_DST_VCO_2 c, MOD_DST_VCO_1_2_FINE c, MOD_DST_MIX_BALANCE c, MOD_DST_MIX_NOISE c, MOD_DST_MIX_SUB_OSC c, MOD_DST_FILTER_RESONANCE c}"
    using d unfolding destinations_distinct_def by auto
  have MOD_DST_PWM_1: "MOD_DST_PWM_1 c \<notin> {MOD_DST_FILTER_CUTOFF c, MOD_DST_VCA c, MOD_DST_PWM_2 c, MOD_DST_VCO_1 c, MOD_DST_VCO_2 c, MOD_DST_VCO_1_2_FINE c, MOD_DST_MIX_BALANCE c, MOD_DST_MIX_NOISE c, MOD_DST_MIX_SUB_OSC c, MOD_DST_FILTER_RESONANCE c}"
    using d unfolding destinations_distinct_def by auto
  have MOD_DST_PWM_2: "MOD_DST_PWM_2 c \<notin> {MOD_DST_FILTER_CUTOFF c, MOD_DST_VCA c, MOD_DST_PWM_1 c, MOD_DST_VCO_1 c, MOD_DST_VCO_2 c, MOD_DST_VCO_1_2_FINE c, MOD_DST_MIX_BALANCE c, MOD_DST_MIX_NOISE c, MOD_DST_MIX_SUB_OSC c, MOD_DST_FILTER_RESONANCE c}"
    using d unfolding destinations_distinct_def by auto
  have MOD_DST_VCO_1: "MOD_DST_VCO_1 c \<notin> {MOD_DST_FILTER_CUTOFF c, MOD_DST_VCA c, MOD_DST_PWM_1 c, MOD_DST_PWM_2 c, MOD_DST_VCO_2 c, MOD_DST_VCO_1_2_FINE c, MOD_DST_MIX_BALANCE c, MOD_DST_MIX_NOISE c, MOD_DST_MIX_SUB_OSC c, MOD_DST_FILTER_RESONANCE c}"
    using d unfolding destinations_distinct_def by auto
  have MOD_DST_VCO_2: "MOD_DST_VCO_2 c \<notin> {MOD_DST_FILTER_CUTOFF c, MOD_DST_VCA c, MOD_DST_PWM_1 c, MOD_DST_PWM_2 c, MOD_DST_VCO_1 c, MOD_DST_VCO_1_2_FINE c, MOD_DST_MIX_BALANCE c, MOD_DST_MIX_NOISE c, MOD_DST_MIX_SUB_OSC c, MOD_DST_FILTER_RESONANCE c}"
    using d unfolding destinations_distinct_def by auto
  have MOD_DST_VCO_1_2_FINE: "MOD_DST_VCO_1_2_FINE c \<notin> {MOD_DST_FILTER_CUTOFF c, MOD_DST_VCA c, MOD_DST_PWM_1 c, MOD_DST_PWM_2 c, MOD_DST_VCO_1 c, MOD_DST_VCO_2 c, MOD_DST_MIX_BALANCE c, MOD_DST_MIX_NOISE c, MOD_DST_MIX_SUB_OSC c, MOD_DST_FILTER_RESONANCE c}"
    using d unfolding destinations_distinct_def by auto
  have MOD_DST_MIX_BALANCE: "MOD_DST_MIX_BALANCE c \<notin> {MOD_DST_FILTER_CUTOFF c, MOD_DST_VCA c, MOD_DST_PWM_1 c, MOD_DST_PWM_2 c, MOD_DST_VCO_1 c, MOD_DST_VCO_2 c, MOD_DST_VCO_1_2_FINE c, MOD_DST_MIX_NOISE c, MOD_DST_MIX_SUB_OSC c, MOD_DST_FILTER_RESONANCE c}"
    using d unfolding destinations_distinct_def by auto
  have MOD_DST_MIX_NOISE: "MOD_DST_MIX_NOISE c \<notin> {MOD_DST_FILTER_CUTOFF c, MOD_DST_VCA c, MOD_DST_PWM_1 c, MOD_DST_PWM_2 c, MOD_DST_VCO_1 c, MOD_DST_VCO_2 c, MOD_DST_VCO_1_2_FINE c, MOD_DST_MIX_BALANCE c, MOD_DST_MIX_SUB_OSC c, MOD_DST_FILTER_RESONANCE c}"
    using d unfolding destinations_distinct_def by auto
  have MOD_DST_MIX_SUB_OSC: "MOD_DST_MIX_SUB_OSC c \<notin> {MOD_DST_FILTER_CUTOFF c, MOD_DST_VCA c, MOD_DST_PWM_1 c, MOD_DST_PWM_2 c, MOD_DST_VCO_1 c, MOD_DST_VCO_2 c, MOD_DST_VCO_1_2_FINE c, MOD_DST_MIX_BALANCE c, MOD_DST_MIX_NOISE c, MOD_DST_FILTER_RESONANCE c}"
    using d unfolding destinations_distinct_def by auto
  have MOD_DST_FILTER_RESONANCE: "MOD_DST_FILTER_RESONANCE c \<notin> {MOD_DST_FILTER_CUTOFF c, MOD_DST_VCA c, MOD_DST_PWM_1 c, MOD_DST_PWM_2 c, MOD_DST_VCO_1 c, MOD_DST_VCO_2 c, MOD_DST_VCO_1_2_FINE c, MOD_DST_MIX_BALANCE c, MOD_DST_MIX_NOISE c, MOD_DST_MIX_SUB_OSC c}"
    using d unfolding destinations_distinct_def by auto
  show "modulation_destinations s' (MOD_DST_VCA c) = 255"
    using MOD_DST_VCA by (simp add: defs)
  show "modulation_destinations s' (MOD_DST_PWM_1 c) =
            ucast (signed_drop_bit 7 (push_bit 7 (ucast (osc_parameter (patch t) 0)) :: int16_t))"
    using MOD_DST_PWM_1 by (simp add: defs)
  show "modulation_destinations s' (MOD_DST_PWM_2 c) =
            ucast (signed_drop_bit 7 (push_bit 7 (ucast (osc_parameter (patch t) 1)) :: int16_t))"
    using MOD_DST_PWM_2 by (simp add: defs)
  show "modulation_destinations s' (MOD_DST_MIX_BALANCE c) =
            ShiftRight6 (push_bit 8 (ucast (mix_balance (patch t))))"
    using MOD_DST_MIX_BALANCE by (simp add: defs)
  show "modulation_destinations s' (MOD_DST_MIX_NOISE c) =
            ucast (signed_drop_bit 8 (push_bit 8 (ucast (mix_noise (patch t))) :: int16_t))"
    using MOD_DST_MIX_NOISE by (simp add: defs)
  show "modulation_destinations s' (MOD_DST_MIX_SUB_OSC c) =
            ucast (signed_drop_bit 7 (push_bit 8 (ucast (mix_sub_osc (patch t))) :: int16_t))"
    using MOD_DST_MIX_SUB_OSC by (simp add: defs)
  show "modulation_destinations s' (MOD_DST_FILTER_RESONANCE c) =
            ShiftRight6 (push_bit 8 (ucast (filter_resonance (patch t))))"
    using MOD_DST_FILTER_RESONANCE by (simp add: defs)
  show "dst s' (MOD_DST_VCO_1 c) = 8192"
    using MOD_DST_VCO_1 by (simp add: defs)
  show "dst s' (MOD_DST_VCO_2 c) = 8192"
    using MOD_DST_VCO_2 by (simp add: defs)
  show "dst s' (MOD_DST_VCO_1_2_FINE c) = 8192"
    using MOD_DST_VCO_1_2_FINE by (simp add: defs)
  show "modulation_destinations s' (MOD_DST_FILTER_CUTOFF c) =
            ShiftRight6 (dst (filter_modulations c l) (MOD_DST_FILTER_CUTOFF c))"
    using MOD_DST_FILTER_CUTOFF by (simp add: defs)
  show "dst l (MOD_DST_FILTER_CUTOFF c) = push_bit 7 (ucast (filter_cutoff (patch t)))"
    using MOD_DST_FILTER_CUTOFF by (simp add: defs)
qed

text \<open>
  C1, as amended. A matrix row whose amount is 0 leaves the state as it is. When every
  row has amount 0, the amplitude destination is 255, the three pitch accumulators
  stay at 8192, every other additive destination except the filter cutoff resolves to
  its parameter scaled into the 14-bit range and scaled down again, and the filter
  cutoff resolves to its scaled parameter after the two hardcoded filter modulations.
\<close>

theorem zero_amount_no_effect:
  assumes d: "destinations_distinct c"
  shows
    "(modulation_amount (patch s) i = 0 \<longrightarrow> modulation_entry c i s = s) \<and>
     ((\<forall>j<kModulationMatrixSize. modulation_amount (patch s) j = 0) \<longrightarrow>
      (let l = Control_load c (Control_sources c inp s);
           s' = Control_modulation c inp s
       in modulation_destinations s' (MOD_DST_VCA c) = 255 \<and>
          modulation_destinations s' (MOD_DST_PWM_1 c) =
            ucast (signed_drop_bit 7 (push_bit 7 (ucast (osc_parameter (patch s) 0)) :: int16_t)) \<and>
          modulation_destinations s' (MOD_DST_PWM_2 c) =
            ucast (signed_drop_bit 7 (push_bit 7 (ucast (osc_parameter (patch s) 1)) :: int16_t)) \<and>
          modulation_destinations s' (MOD_DST_MIX_BALANCE c) =
            ShiftRight6 (push_bit 8 (ucast (mix_balance (patch s)))) \<and>
          modulation_destinations s' (MOD_DST_MIX_NOISE c) =
            ucast (signed_drop_bit 8 (push_bit 8 (ucast (mix_noise (patch s))) :: int16_t)) \<and>
          modulation_destinations s' (MOD_DST_MIX_SUB_OSC c) =
            ucast (signed_drop_bit 7 (push_bit 8 (ucast (mix_sub_osc (patch s))) :: int16_t)) \<and>
          modulation_destinations s' (MOD_DST_FILTER_RESONANCE c) =
            ShiftRight6 (push_bit 8 (ucast (filter_resonance (patch s)))) \<and>
          dst s' (MOD_DST_VCO_1 c) = 8192 \<and>
          dst s' (MOD_DST_VCO_2 c) = 8192 \<and>
          dst s' (MOD_DST_VCO_1_2_FINE c) = 8192 \<and>
          dst l (MOD_DST_FILTER_CUTOFF c) = push_bit 7 (ucast (filter_cutoff (patch s))) \<and>
          modulation_destinations s' (MOD_DST_FILTER_CUTOFF c) =
            ShiftRight6 (dst (filter_modulations c l) (MOD_DST_FILTER_CUTOFF c))))"
proof (intro conjI impI)
  assume "modulation_amount (patch s) i = 0"
  then show "modulation_entry c i s = s" by (rule modulation_entry_zero)
next
  assume z: "\<forall>j<kModulationMatrixSize. modulation_amount (patch s) j = 0"
  let ?t = "Control_sources c inp s"
  have eq: "Control_modulation c inp s =
         store_destinations c (filter_modulations c (Control_load c ?t))"
    using z by (intro Control_modulation_zero) simp
  have p: "patch ?t = patch s" by (simp add: Control_sources_def)
  note u = unmodulated_destinations [OF d, of ?t, unfolded p]
  show "let l = Control_load c (Control_sources c inp s);
           s' = Control_modulation c inp s
       in modulation_destinations s' (MOD_DST_VCA c) = 255 \<and>
          modulation_destinations s' (MOD_DST_PWM_1 c) =
            ucast (signed_drop_bit 7 (push_bit 7 (ucast (osc_parameter (patch s) 0)) :: int16_t)) \<and>
          modulation_destinations s' (MOD_DST_PWM_2 c) =
            ucast (signed_drop_bit 7 (push_bit 7 (ucast (osc_parameter (patch s) 1)) :: int16_t)) \<and>
          modulation_destinations s' (MOD_DST_MIX_BALANCE c) =
            ShiftRight6 (push_bit 8 (ucast (mix_balance (patch s)))) \<and>
          modulation_destinations s' (MOD_DST_MIX_NOISE c) =
            ucast (signed_drop_bit 8 (push_bit 8 (ucast (mix_noise (patch s))) :: int16_t)) \<and>
          modulation_destinations s' (MOD_DST_MIX_SUB_OSC c) =
            ucast (signed_drop_bit 7 (push_bit 8 (ucast (mix_sub_osc (patch s))) :: int16_t)) \<and>
          modulation_destinations s' (MOD_DST_FILTER_RESONANCE c) =
            ShiftRight6 (push_bit 8 (ucast (filter_resonance (patch s)))) \<and>
          dst s' (MOD_DST_VCO_1 c) = 8192 \<and>
          dst s' (MOD_DST_VCO_2 c) = 8192 \<and>
          dst s' (MOD_DST_VCO_1_2_FINE c) = 8192 \<and>
          dst l (MOD_DST_FILTER_CUTOFF c) = push_bit 7 (ucast (filter_cutoff (patch s))) \<and>
          modulation_destinations s' (MOD_DST_FILTER_CUTOFF c) =
            ShiftRight6 (dst (filter_modulations c l) (MOD_DST_FILTER_CUTOFF c))"
    unfolding Let_def eq
    apply (intro conjI)
    apply (rule u)+
    done
qed

lemma sample_empty_patch:
  "empty_patch sample_constants =
    [99, 3, 4, 0, 32, 0, 0, 0, 0, 24, 0, 0, 4, 110, 0, 10, 0, 20, 0, 60, 40, 20, 80, 60, 40,
     0, 0, 96, 3,
     0, 4, 0,  0, 5, 0,  0, 2, 0,  0, 3, 0,  1, 7, 0,  14, 0, 58,  12, 1, 63,  13, 1, 16,
     5, 6, 32,  0, 6, 16,  6, 2, 0,  7, 0, 0,  8, 0, 0,  9, 0, 0,
     120, 0, 0, 0, 0x00, 0x00, 0xff, 0xff, 0xcc, 0xcc, 0x44, 0x44, 0, 0, 0, 1,
     110, 101, 119, 32, 32, 32, 32, 32, 16]"
  by (simp add: empty_patch_def sample_constants_def)

lemma power_on_patch: "patch (power_on c) = patch_of_bytes (empty_patch c)"
  by (simp add: power_on_def)

lemma unmodulated_fields:
  "filter_cutoff (patch (unmodulated sample_constants)) = 110"
  "filter_env (patch (unmodulated sample_constants)) = 10"
  "filter_lfo (patch (unmodulated sample_constants)) = 0"
  "mix_balance (patch (unmodulated sample_constants)) = 24"
  by (simp_all add: unmodulated_def power_on_patch sample_empty_patch patch_of_bytes_def
        filter_cutoff_def filter_env_def filter_lfo_def mix_balance_def)

lemma unmodulated_cutoff_accumulator:
  "dst (filter_modulations sample_constants (Control_load sample_constants
          (Control_sources sample_constants envelopes_open (unmodulated sample_constants)))) 0 = 16383"
  by (simp add: filter_modulations_def Control_load_def Control_sources_def Let_def
        sample_constants_simps unmodulated_fields envelopes_open_def
        Clip_def ShiftRight6_def SignedUnsignedMul_def)

lemma unmodulated_amounts_list:
  "map (modulation_amount (patch (unmodulated c))) [0..<kModulationMatrixSize] =
     replicate kModulationMatrixSize 0"
  by (rule nth_equalityI) (simp_all add: unmodulated_amounts)

theorem zero_amount_no_effect_witness:
  "destinations_distinct sample_constants \<and>
   map (modulation_amount (patch (unmodulated sample_constants))) [0..<kModulationMatrixSize] =
     replicate kModulationMatrixSize 0 \<and>
   modulation_destinations
     (Control_modulation sample_constants envelopes_open (unmodulated sample_constants)) 1 = 255 \<and>
   modulation_destinations
     (Control_modulation sample_constants envelopes_open (unmodulated sample_constants)) 7 = 96"
  using zero_amount_no_effect [OF sample_destinations_distinct,
          of "unmodulated sample_constants" 0 envelopes_open]
  by (simp add: unmodulated_amounts unmodulated_amounts_list sample_destinations_distinct Let_def
        sample_constants_simps unmodulated_fields ShiftRight6_def)

text \<open>
  C1, as stated, fails for the filter cutoff: with every amount 0, the default cutoff
  110 and filter envelope amount 10, and envelope 1 fully open, the cutoff resolves
  to 255, whereas the scaled parameter, scaled down again, is 220.
\<close>

theorem zero_amount_cutoff_counterexample:
  "map (modulation_amount (patch (unmodulated sample_constants))) [0..<kModulationMatrixSize] =
     replicate kModulationMatrixSize 0 \<and>
   modulation_destinations
     (Control_modulation sample_constants envelopes_open (unmodulated sample_constants))
     (MOD_DST_FILTER_CUTOFF sample_constants) = 255 \<and>
   ShiftRight6 (push_bit 7 (ucast (filter_cutoff (patch (unmodulated sample_constants))))) = 220"
proof (intro conjI)
  show "map (modulation_amount (patch (unmodulated sample_constants))) [0..<kModulationMatrixSize] =
     replicate kModulationMatrixSize 0"
    by (rule unmodulated_amounts_list)
  have "modulation_destinations
     (store_destinations sample_constants (filter_modulations sample_constants
        (Control_load sample_constants
          (Control_sources sample_constants envelopes_open (unmodulated sample_constants))))) 0 = 255"
    by (simp add: store_destinations_def sample_constants_simps unmodulated_cutoff_accumulator
          ShiftRight6_def)
  then show "modulation_destinations
     (Control_modulation sample_constants envelopes_open (unmodulated sample_constants))
     (MOD_DST_FILTER_CUTOFF sample_constants) = 255"
    by (simp add: Control_modulation_zero unmodulated_amounts sample_constants_simps)
  show "ShiftRight6 (push_bit 7 (ucast (filter_cutoff (patch (unmodulated sample_constants))))) = 220"
    by (simp add: unmodulated_fields ShiftRight6_def)
qed

section \<open>The rows of the modulation matrix\<close>

lemma apply_modulation_frame:
  "patch (apply_modulation c a src d s) = patch s"
  "modulation_sources (apply_modulation c a src d s) = modulation_sources s"
  "voice_modulation_sources (apply_modulation c a src d s) = voice_modulation_sources s"
  by (simp_all add: apply_modulation_def Let_def)

lemma modulation_entry_frame:
  "patch (modulation_entry c i s) = patch s"
  "modulation_sources (modulation_entry c i s) = modulation_sources s"
  "voice_modulation_sources (modulation_entry c i s) = voice_modulation_sources s"
  by (simp_all add: modulation_entry_def Let_def apply_modulation_frame)

lemma modulation_entry_row:
  "patch t = patch s \<Longrightarrow> modulation_sources t = modulation_sources s \<Longrightarrow>
   modulation_entry c i t = matrix_row c s i t"
  by (simp add: modulation_entry_def matrix_row_def Let_def)

lemma matrix_row_frame:
  "patch t = patch s \<Longrightarrow> patch (matrix_row c s i t) = patch s"
  "modulation_sources t = modulation_sources s \<Longrightarrow>
   modulation_sources (matrix_row c s i t) = modulation_sources s"
  by (simp_all add: matrix_row_def apply_modulation_frame)

lemma modulation_matrix_loop_rows:
  "patch t = patch s \<Longrightarrow> modulation_sources t = modulation_sources s \<Longrightarrow>
   modulation_matrix_loop c i t = fold (matrix_row c s) [i..<kModulationMatrixSize] t"
proof (induction c i t rule: modulation_matrix_loop.induct)
  case (1 c i t)
  show ?case
  proof (cases "i < kModulationMatrixSize")
    case True
    have "modulation_matrix_loop c (Suc i) (modulation_entry c i t) =
          fold (matrix_row c s) [Suc i..<kModulationMatrixSize] (modulation_entry c i t)"
      using True "1.prems" by (intro "1.IH") (simp_all add: modulation_entry_frame)
    then show ?thesis
      using True "1.prems"
      by (subst modulation_matrix_loop.simps) (simp add: upt_conv_Cons modulation_entry_row)
  next
    case False
    then show ?thesis by (subst modulation_matrix_loop.simps) simp
  qed
qed

text \<open>
  C2, as amended. The matrix loop evaluates the \<open>kModulationMatrixSize\<close> rows of
  the patch once each, in stored order; every row takes source, destination and amount
  from its own fields, rows with amount 0 are skipped, and the only amount scaled by
  the wheel (signed by unsigned product, shifted right by 8) is that of the row at index
  \<open>kSavedModulationMatrixSize - 1\<close>, the last persisted row itself. No further row is
  evaluated.
\<close>

theorem matrix_rows_in_stored_order:
  "modulation_matrix_loop c 0 s =
   fold (\<lambda>i t. if modulation_amount (patch s) i = 0 then t
                else apply_modulation c
                       (if int i = kSavedModulationMatrixSize c - 1
                        then SignedMulScale8 (modulation_amount (patch s) i)
                               (modulation_sources s (MOD_SRC_WHEEL c))
                        else modulation_amount (patch s) i)
                       (uint (modulation_source (patch s) i))
                       (uint (modulation_destination (patch s) i)) t)
        [0..<kModulationMatrixSize] s"
  using modulation_matrix_loop_rows [of s s c 0] by (simp add: matrix_row_def [abs_def])

lemma sless_facts:
  fixes a :: int8_t
  assumes "0 <s a"
  shows "a \<noteq> 0" "- a \<noteq> 0" "\<not> a <s 0" "- a <s 0" "- (- a) = a"
proof -
  have p: "0 < sint a" using assms by (simp add: word_sless_alt)
  have r: "sint a < 128" using sint_lt [of a] by simp
  show "a \<noteq> 0" using p by auto
  then show "- a \<noteq> 0" by simp
  show "\<not> a <s 0" using p by (simp add: word_sless_alt)
  have "sint (- a) = - sint a"
    using p r by (simp add: sint_word_minus signed_take_bit_int_eq_self)
  then show "- a <s 0" using p by (simp add: word_sless_alt)
  show "- (- a) = a" by simp
qed

text \<open>
  C3, as amended. For a row that targets the amplitude destination and is not the
  wheel-scaled row, evaluating it with amount \<open>a > 0\<close> where the source reads \<open>v\<close>
  gives the same amplitude as evaluating it with amount \<open>- a\<close> where the source reads
  \<open>255 - v\<close>.
\<close>

theorem amplitude_sign_symmetry:
  assumes "int i \<noteq> kSavedModulationMatrixSize c - 1"
    and "uint (modulation_destination (patch s) i) = MOD_DST_VCA c"
    and "modulation_destination (patch s') i = modulation_destination (patch s) i"
    and "modulation_source (patch s') i = modulation_source (patch s) i"
    and "0 <s a"
    and "modulation_amount (patch s) i = a"
    and "modulation_amount (patch s') i = - a"
    and "read_source c s (uint (modulation_source (patch s) i)) = v"
    and "read_source c s' (uint (modulation_source (patch s) i)) = 255 - v"
    and "modulation_destinations s' (MOD_DST_VCA c) = modulation_destinations s (MOD_DST_VCA c)"
  shows "modulation_destinations (modulation_entry c i s') (MOD_DST_VCA c) =
         modulation_destinations (modulation_entry c i s) (MOD_DST_VCA c)"
  using assms sless_facts [of a]
  by (simp add: modulation_entry_def apply_modulation_def Let_def)

lemma fold_identity:
  "(\<And>j. j \<in> set js \<Longrightarrow> f j = id) \<Longrightarrow> fold f js s = s"
  by (induction js arbitrary: s) simp_all

lemma fold_single:
  assumes "k < n" and "\<And>j. j < n \<Longrightarrow> j \<noteq> k \<Longrightarrow> f j = id"
  shows "fold f [0..<n] s = f k s"
proof -
  have "[0..<n] = [0..<k] @ k # [Suc k..<n]"
    using assms(1) by (metis le_add1 le_add_same_cancel1 less_imp_add_positive upt_add_eq_append upt_conv_Cons)
  moreover have "fold f [0..<k] s = s"
    using assms by (intro fold_identity) auto
  moreover have "fold f [Suc k..<n] t = t" for t
    using assms by (intro fold_identity) auto
  ultimately show ?thesis by simp
qed

lemma one_row_amount:
  "k < kModulationMatrixSize \<Longrightarrow> j < kModulationMatrixSize \<Longrightarrow>
   modulation_amount (patch (one_row k src d a v w)) j = (if j = k then a else 0)"
  by (auto simp add: one_row_def modulation_amount_def unmodulated_def kModulationMatrixSize_def)

lemma one_row_source:
  "modulation_source (patch (one_row k src d a v w)) k = src"
  by (simp add: one_row_def modulation_source_def)

lemma one_row_destination:
  "modulation_destination (patch (one_row k src d a v w)) k = d"
  by (simp add: one_row_def modulation_destination_def)

lemma one_row_frame:
  "modulation_sources (one_row k src d a v w) = (\<lambda>j. v)(MOD_SRC_WHEEL sample_constants := w)"
  by (simp add: one_row_def)

lemma loaded_frame:
  "patch (Control_load c (Control_sources c inp s)) = patch s"
  "modulation_sources (Control_load c (Control_sources c inp s)) = modulation_sources s"
  by (simp_all add: Control_load_def Control_sources_def)

lemma one_row_loop:
  assumes "k < kModulationMatrixSize"
  shows "modulation_matrix_loop c 0 (Control_load c (Control_sources c inp (one_row k src d a v w))) =
         matrix_row c (one_row k src d a v w) k
           (Control_load c (Control_sources c inp (one_row k src d a v w)))"
proof -
  let ?s = "one_row k src d a v w"
  let ?l = "Control_load c (Control_sources c inp ?s)"
  have "modulation_matrix_loop c 0 ?l = fold (matrix_row c ?s) [0..<kModulationMatrixSize] ?l"
    by (intro modulation_matrix_loop_rows) (simp_all add: loaded_frame)
  also have "\<dots> = matrix_row c ?s k ?l"
  proof (rule fold_single [OF assms])
    fix j assume "j < kModulationMatrixSize" "j \<noteq> k"
    then show "matrix_row c ?s j = id"
      using assms by (simp add: matrix_row_def [abs_def] one_row_amount id_def)
  qed
  finally show ?thesis .
qed

lemma wheel_row_positive:
  "modulation_destinations
     (Control_modulation sample_constants envelopes_open (one_row 9 2 1 1 0 128)) 1 = 253"
  by (simp add: Control_modulation_def one_row_loop kModulationMatrixSize_def)
     (simp add: store_destinations_def filter_modulations_def matrix_row_def Let_def
        one_row_amount one_row_source one_row_destination one_row_frame
        kModulationMatrixSize_def sample_constants_simps apply_modulation_def read_source_def
        Control_load_def Control_sources_def SignedMulScale8_def MulScale8_def Mix_def)

lemma wheel_row_negative:
  "modulation_destinations
     (Control_modulation sample_constants envelopes_open (one_row 9 2 1 (- 1) 255 128)) 1 = 249"
  by (simp add: Control_modulation_def one_row_loop kModulationMatrixSize_def)
     (simp add: store_destinations_def filter_modulations_def matrix_row_def Let_def
        one_row_amount one_row_source one_row_destination one_row_frame
        kModulationMatrixSize_def sample_constants_simps apply_modulation_def read_source_def
        Control_load_def Control_sources_def SignedMulScale8_def MulScale8_def Mix_def
        word_sless_alt)

lemma spec_one_row:
  assumes k: "kSavedModulationMatrixSize c = int k + 1" and "k < kModulationMatrixSize"
  shows "spec_matrix_evaluation c (Control_load c (Control_sources c inp (one_row k src d a v w))) =
     (let l = Control_load c (Control_sources c inp (one_row k src d a v w));
          raw = (if a = 0 then l else apply_modulation c a (uint src) (uint d) l)
      in if a = 0 then raw
         else apply_modulation c (SignedMulScale8 a (modulation_sources l (MOD_SRC_WHEEL c)))
                (uint src) (uint d) raw)"
proof -
  let ?s = "one_row k src d a v w"
  let ?l = "Control_load c (Control_sources c inp ?s)"
  let ?f = "\<lambda>i t. if modulation_amount (patch ?l) i = 0 then t
                           else apply_modulation c (modulation_amount (patch ?l) i)
                                  (uint (modulation_source (patch ?l) i))
                                  (uint (modulation_destination (patch ?l) i)) t"
  have n: "nat (kSavedModulationMatrixSize c) = Suc k" using k by simp
  have f: "fold ?f [0..<Suc k] ?l = ?f k ?l"
  proof (rule fold_single)
    fix j assume "j < Suc k" "j \<noteq> k"
    then show "?f j = id"
      using assms by (simp add: loaded_frame one_row_amount id_def)
  qed simp
  have "spec_matrix_evaluation c ?l =
     (if modulation_amount (patch ?l) k = 0 then ?f k ?l
      else apply_modulation c
             (SignedMulScale8 (modulation_amount (patch ?l) k)
                (modulation_sources ?l (MOD_SRC_WHEEL c)))
             (uint (modulation_source (patch ?l) k))
             (uint (modulation_destination (patch ?l) k)) (?f k ?l))"
    unfolding spec_matrix_evaluation_def n Let_def f by simp
  then show ?thesis
    using assms
    by (simp add: Let_def loaded_frame one_row_amount one_row_source one_row_destination)
qed

lemmas row_eval = matrix_row_def Let_def one_row_amount one_row_source one_row_destination
  one_row_frame kModulationMatrixSize_def sample_constants_simps apply_modulation_def
  read_source_def Control_load_def Control_sources_def SignedMulScale8_def
  SignedUnsignedMul_def Clip_def unmodulated_fields

lemma one_row_cutoff: "filter_cutoff (patch (one_row k src d a v w)) = 110"
  by (simp add: one_row_def filter_cutoff_def unmodulated_def power_on_patch
        sample_empty_patch patch_of_bytes_def)

text \<open>
  C2, as stated, fails: with 13 persisted rows (one less than the 14 evaluated), the
  wheel at 0 and row 12 adding 63 times a source at 255 to the cutoff, the loop leaves
  the cutoff accumulator at its base 14080, because the amount of row 12 itself is
  scaled to 0; evaluating the 13 rows as stored and then a synthesized copy of row 12
  gives 16383.
\<close>

theorem synthesized_row_counterexample:
  "dst (modulation_matrix_loop (sample_constants\<lparr>kSavedModulationMatrixSize := 13\<rparr>) 0
         (Control_load (sample_constants\<lparr>kSavedModulationMatrixSize := 13\<rparr>)
            (Control_sources (sample_constants\<lparr>kSavedModulationMatrixSize := 13\<rparr>)
               envelopes_open (one_row 12 8 0 63 255 0)))) 0 = 14080 \<and>
   dst (spec_matrix_evaluation (sample_constants\<lparr>kSavedModulationMatrixSize := 13\<rparr>)
         (Control_load (sample_constants\<lparr>kSavedModulationMatrixSize := 13\<rparr>)
            (Control_sources (sample_constants\<lparr>kSavedModulationMatrixSize := 13\<rparr>)
               envelopes_open (one_row 12 8 0 63 255 0)))) 0 = 16383"
proof
  show "dst (modulation_matrix_loop (sample_constants\<lparr>kSavedModulationMatrixSize := 13\<rparr>) 0
         (Control_load (sample_constants\<lparr>kSavedModulationMatrixSize := 13\<rparr>)
            (Control_sources (sample_constants\<lparr>kSavedModulationMatrixSize := 13\<rparr>)
               envelopes_open (one_row 12 8 0 63 255 0)))) 0 = 14080"
    by (simp add: one_row_loop kModulationMatrixSize_def)
       (simp add: row_eval one_row_cutoff)
  show "dst (spec_matrix_evaluation (sample_constants\<lparr>kSavedModulationMatrixSize := 13\<rparr>)
         (Control_load (sample_constants\<lparr>kSavedModulationMatrixSize := 13\<rparr>)
            (Control_sources (sample_constants\<lparr>kSavedModulationMatrixSize := 13\<rparr>)
               envelopes_open (one_row 12 8 0 63 255 0)))) 0 = 16383"
    by (simp add: spec_one_row kModulationMatrixSize_def)
       (simp add: row_eval one_row_cutoff)
qed

text \<open>
  C3, as stated, fails on the wheel-scaled row: with the wheel at 128, amount 1 is scaled
  to 0 and amount \<open>- 1\<close> to \<open>- 1\<close>, so that the source at 0 with amount 1 resolves the
  amplitude to 253 and the source at 255 with amount \<open>- 1\<close> to 249.
\<close>

theorem wheel_row_symmetry_counterexample:
  "modulation_destinations
     (Control_modulation sample_constants envelopes_open (one_row 9 2 1 1 0 128))
     (MOD_DST_VCA sample_constants) = 253 \<and>
   modulation_destinations
     (Control_modulation sample_constants envelopes_open (one_row 9 2 1 (- 1) (255 - 0) 128))
     (MOD_DST_VCA sample_constants) = 249"
  using wheel_row_positive wheel_row_negative by (simp add: sample_constants_simps)

lemma one_row_loaded_source:
  "read_source sample_constants (Control_load sample_constants (one_row k src d a v w)) 2 = v"
  by (simp add: read_source_def Control_load_def one_row_frame sample_constants_simps)

theorem amplitude_sign_symmetry_witness:
  "(0 :: int8_t) <s 5 \<and>
   modulation_destinations
     (modulation_entry sample_constants 6
        (Control_load sample_constants (one_row 6 2 1 (- 5) (255 - 10) 128))) 1 =
   modulation_destinations
     (modulation_entry sample_constants 6
        (Control_load sample_constants (one_row 6 2 1 5 10 128))) 1"
proof -
  let ?s = "Control_load sample_constants (one_row 6 2 1 5 10 128)"
  let ?s' = "Control_load sample_constants (one_row 6 2 1 (- 5) (255 - 10) 128)"
  have p: "patch (Control_load sample_constants t) = patch t" for t
    by (simp add: Control_load_def)
  have h1: "int 6 \<noteq> kSavedModulationMatrixSize sample_constants - 1"
    by (simp add: sample_constants_simps)
  have h2: "uint (modulation_destination (patch ?s) 6) = MOD_DST_VCA sample_constants"
    by (simp add: p one_row_destination sample_constants_simps)
  have h3: "modulation_destination (patch ?s') 6 = modulation_destination (patch ?s) 6"
    by (simp add: p one_row_destination)
  have h4: "modulation_source (patch ?s') 6 = modulation_source (patch ?s) 6"
    by (simp add: p one_row_source)
  have h5: "(0 :: int8_t) <s 5" by (simp add: word_sless_alt)
  have h6: "modulation_amount (patch ?s) 6 = 5"
    by (simp add: p one_row_amount kModulationMatrixSize_def)
  have h7: "modulation_amount (patch ?s') 6 = - 5"
    by (simp add: p one_row_amount kModulationMatrixSize_def)
  have h8: "read_source sample_constants ?s (uint (modulation_source (patch ?s) 6)) = 10"
    by (simp add: p one_row_source one_row_loaded_source)
  have h9: "read_source sample_constants ?s' (uint (modulation_source (patch ?s) 6)) = 255 - 10"
    by (simp add: p one_row_source one_row_loaded_source)
  have h10: "modulation_destinations ?s' (MOD_DST_VCA sample_constants) =
             modulation_destinations ?s (MOD_DST_VCA sample_constants)"
    by (simp add: Control_load_def)
  show ?thesis
    using amplitude_sign_symmetry [OF h1 h2 h3 h4 h5 h6 h7 h8 h9 h10] h5
    by (simp add: sample_constants_simps)
qed

section \<open>The pitch table\<close>

lemma table_shift_in_window:
  "\<not> ref_pitch <s 0 \<Longrightarrow> table_shift c ref_pitch n = Some (ref_pitch, n)"
  by (subst table_shift.simps) simp

lemma word16_as_int:
  "(p :: int16_t) + of_nat k * q = word_of_int (sint p + int k * sint q)"
  by simp

lemma table_shift_octaves:
  assumes oct: "0 < sint (kOctave c)"
  shows "k = 0 \<or> sint ref_pitch + (int k - 1) * sint (kOctave c) < 0 \<Longrightarrow>
         0 \<le> sint ref_pitch + int k * sint (kOctave c) \<Longrightarrow>
         table_shift c ref_pitch n = Some (ref_pitch + of_nat k * kOctave c, n + of_nat k)"
proof (induction k arbitrary: ref_pitch n)
  case 0
  then have "\<not> ref_pitch <s 0" by (simp add: word_sless_alt)
  then show ?case by (simp add: table_shift_in_window)
next
  case (Suc k)
  have below: "sint ref_pitch + int k * sint (kOctave c) < 0"
    using Suc.prems(1) by simp
  have "0 \<le> int k * sint (kOctave c)" using oct by simp
  with below have neg: "sint ref_pitch < 0" by linarith
  have lo: "- 32768 \<le> sint ref_pitch" using sint_ge [of ref_pitch] by simp
  have hi: "sint (kOctave c) < 32768" using sint_lt [of "kOctave c"] by simp
  have s: "sint (ref_pitch + kOctave c) = sint ref_pitch + sint (kOctave c)"
    using neg lo hi oct by (intro sint16_add) auto
  have "table_shift c (ref_pitch + kOctave c) (n + 1) =
        Some (ref_pitch + kOctave c + of_nat k * kOctave c, n + 1 + of_nat k)"
  proof (rule Suc.IH)
    show "k = 0 \<or> sint (ref_pitch + kOctave c) + (int k - 1) * sint (kOctave c) < 0"
      using below by (simp add: s algebra_simps)
    show "0 \<le> sint (ref_pitch + kOctave c) + int k * sint (kOctave c)"
      using Suc.prems(2) by (simp add: s algebra_simps)
  qed
  moreover have "ref_pitch <s 0" using neg by (simp add: word_sless_alt)
  ultimately show ?case
    by (subst table_shift.simps) (simp add: algebra_simps)
qed

lemma wrap_lowest_in_range:
  "\<not> pitch <s kLowestNote c \<Longrightarrow> wrap_lowest c pitch = Some pitch"
  by (subst wrap_lowest.simps) simp

lemma wrap_highest_in_range:
  "\<not> kHighestNote c \<le>s pitch \<Longrightarrow> wrap_highest c pitch = Some pitch"
  by (subst wrap_highest.simps) simp

lemma resolve_pitch_in_range:
  "sint (kLowestNote c) \<le> sint pitch \<Longrightarrow> sint pitch < sint (kHighestNote c) \<Longrightarrow>
   resolve_pitch c res pitch =
     (case pitch_increment_lookup c res pitch of None \<Rightarrow> None
      | Some increment \<Rightarrow> Some (pitch, increment))"
  by (simp add: resolve_pitch_def wrap_lowest_in_range wrap_highest_in_range
        word_sless_alt word_sle_eq)

lemma wrap_lowest_octaves:
  assumes oct: "0 < sint (kOctave c)"
  shows "j = 0 \<or> sint pitch + (int j - 1) * sint (kOctave c) < sint (kLowestNote c) \<Longrightarrow>
         sint (kLowestNote c) \<le> sint pitch + int j * sint (kOctave c) \<Longrightarrow>
         sint pitch + int j * sint (kOctave c) \<le> 32767 \<Longrightarrow>
         wrap_lowest c pitch = Some (pitch + of_nat j * kOctave c) \<and>
         sint (pitch + of_nat j * kOctave c) = sint pitch + int j * sint (kOctave c)"
proof (induction j arbitrary: pitch)
  case 0
  then have "\<not> pitch <s kLowestNote c" by (simp add: word_sless_alt)
  then show ?case by (simp add: wrap_lowest_in_range)
next
  case (Suc j)
  have below: "sint pitch + int j * sint (kOctave c) < sint (kLowestNote c)"
    using Suc.prems(1) by simp
  have nn: "0 \<le> int j * sint (kOctave c)" using oct by simp
  with below have lt: "sint pitch < sint (kLowestNote c)" by linarith
  have lo: "- 32768 \<le> sint pitch" using sint_ge [of pitch] by simp
  have top: "sint pitch + sint (kOctave c) + int j * sint (kOctave c) \<le> 32767"
    using Suc.prems(3) by (simp add: algebra_simps)
  have top1: "sint pitch + sint (kOctave c) \<le> 32767"
    using top nn by linarith
  have s: "sint (pitch + kOctave c) = sint pitch + sint (kOctave c)"
    using lo oct top1 by (intro sint16_add) auto
  have ih: "wrap_lowest c (pitch + kOctave c) = Some (pitch + kOctave c + of_nat j * kOctave c) \<and>
        sint (pitch + kOctave c + of_nat j * kOctave c) =
        sint (pitch + kOctave c) + int j * sint (kOctave c)"
  proof (rule Suc.IH)
    show "j = 0 \<or> sint (pitch + kOctave c) + (int j - 1) * sint (kOctave c) < sint (kLowestNote c)"
      using below by (simp add: s algebra_simps)
    show "sint (kLowestNote c) \<le> sint (pitch + kOctave c) + int j * sint (kOctave c)"
      using Suc.prems(2) by (simp add: s algebra_simps)
    show "sint (pitch + kOctave c) + int j * sint (kOctave c) \<le> 32767"
      using top by (simp add: s)
  qed
  have w: "pitch <s kLowestNote c" using lt by (simp add: word_sless_alt)
  have e: "pitch + kOctave c + of_nat j * kOctave c = pitch + of_nat (Suc j) * kOctave c"
    by (simp add: algebra_simps)
  have "wrap_lowest c pitch = Some (pitch + of_nat (Suc j) * kOctave c)"
    using w ih unfolding e by (subst wrap_lowest.simps) simp
  moreover have "sint (pitch + of_nat (Suc j) * kOctave c) =
                 sint pitch + int (Suc j) * sint (kOctave c)"
    using ih unfolding e by (simp add: s algebra_simps)
  ultimately show ?case by simp
qed

lemma pitch_increment_lookup_shifted:
  assumes oct: "0 < sint (kOctave c)"
    and ref: "- 32768 \<le> sint pitch - sint (kPitchTableStart c)"
    and k: "0 < k" "k < 256"
    and below: "sint pitch + (int k - 1) * sint (kOctave c) < sint (kPitchTableStart c)"
    and window: "sint (kPitchTableStart c) \<le> sint pitch + int k * sint (kOctave c)"
  shows "pitch_increment_lookup c res (pitch + of_nat k * kOctave c) =
           Some (lut_res_oscillator_increments res
                   (uint (signed_drop_bit 1 (pitch + of_nat k * kOctave c - kPitchTableStart c))))"
    and "pitch_increment_lookup c res pitch =
           Some (drop_bit k (lut_res_oscillator_increments res
                   (uint (signed_drop_bit 1 (pitch + of_nat k * kOctave c - kPitchTableStart c)))))"
proof -
  let ?ref = "pitch - kPitchTableStart c"
  let ?w = "pitch + of_nat k * kOctave c"
  have "0 \<le> (int k - 1) * sint (kOctave c)" using k oct by simp
  with below have lt: "sint pitch < sint (kPitchTableStart c)" by linarith
  have sref: "sint ?ref = sint pitch - sint (kPitchTableStart c)"
    using ref lt by (intro sint16_diff) auto
  have shifts: "table_shift c ?ref 0 = Some (?ref + of_nat k * kOctave c, 0 + of_nat k)"
    using below window by (intro table_shift_octaves [OF oct]) (simp_all add: sref)
  have wref: "?w - kPitchTableStart c = ?ref + of_nat k * kOctave c" by simp
  have b2: "sint ?ref + int k * sint (kOctave c) < sint (kOctave c)"
    using below by (simp add: sref algebra_simps)
  have o2: "sint (kOctave c) < 32768" using sint_lt [of "kOctave c"] by simp
  have w0: "0 \<le> sint ?ref + int k * sint (kOctave c)"
    using window by (simp add: sref)
  have "sint (?ref + of_nat k * kOctave c) = sint ?ref + int k * sint (kOctave c)"
    unfolding word16_as_int using w0 b2 o2 by (intro sint16_of_int) auto
  then have "\<not> (?w - kPitchTableStart c) <s 0"
    unfolding wref using w0 by (simp add: word_sless_alt)
  then have inw: "table_shift c (?w - kPitchTableStart c) 0 = Some (?w - kPitchTableStart c, 0)"
    by (rule table_shift_in_window)
  have u: "unat (of_nat k :: uint8_t) = k"
    using k by (simp add: unat_of_nat)
  show "pitch_increment_lookup c res ?w =
           Some (lut_res_oscillator_increments res
                   (uint (signed_drop_bit 1 (?w - kPitchTableStart c))))"
    unfolding pitch_increment_lookup_def inw by simp
  show "pitch_increment_lookup c res pitch =
           Some (drop_bit k (lut_res_oscillator_increments res
                   (uint (signed_drop_bit 1 (?w - kPitchTableStart c)))))"
    unfolding pitch_increment_lookup_def shifts by (simp add: wref u)
qed

text \<open>
  C6, as amended. The resolution first raises an assembled pitch below \<open>kLowestNote\<close>
  by whole octaves, \<open>j\<close> of them, the fewest that reach \<open>kLowestNote\<close> (\<open>j\<close> is 0 for a
  pitch that is not below it), and these octaves are not counted. Let the raised pitch
  be below \<open>kHighestNote\<close> and below the start of the pitch table, and let \<open>k\<close> be the
  number of octaves that bring it into the table window (one octave less is still
  below the window). Then the raised pitch plus \<open>k\<close> octaves is looked up without a
  shift, and the pitch resolves to the raised pitch with the increment of that lookup
  shifted right by \<open>k\<close>: by the octaves added to enter the table window, not by the
  \<open>j + k\<close> octaves added in all. The octave is positive, the raised pitch minus the start
  of the table fits in 16 bits, and \<open>k\<close> fits in the byte that counts the shifts.
\<close>

theorem pitch_table_octave_law:
  assumes oct: "0 < sint (kOctave c)"
    and raise: "j = 0 \<or> sint pitch + (int j - 1) * sint (kOctave c) < sint (kLowestNote c)"
    and low: "sint (kLowestNote c) \<le> sint pitch + int j * sint (kOctave c)"
    and high: "sint pitch + int j * sint (kOctave c) < sint (kHighestNote c)"
    and ref: "- 32768 \<le> sint pitch + int j * sint (kOctave c) - sint (kPitchTableStart c)"
    and k: "0 < k" "k < 256"
    and below: "sint pitch + (int j + int k - 1) * sint (kOctave c) < sint (kPitchTableStart c)"
    and window: "sint (kPitchTableStart c) \<le> sint pitch + (int j + int k) * sint (kOctave c)"
  shows "pitch_increment_lookup c res (pitch + of_nat (j + k) * kOctave c) =
           Some (lut_res_oscillator_increments res
                   (uint (signed_drop_bit 1
                      (pitch + of_nat (j + k) * kOctave c - kPitchTableStart c)))) \<and>
         resolve_pitch c res pitch =
           Some (pitch + of_nat j * kOctave c,
                 drop_bit k (lut_res_oscillator_increments res
                   (uint (signed_drop_bit 1
                      (pitch + of_nat (j + k) * kOctave c - kPitchTableStart c)))))"
proof -
  let ?p = "pitch + of_nat j * kOctave c"
  have h: "sint (kHighestNote c) \<le> 32767" using sint_lt [of "kHighestNote c"] by simp
  have fits: "sint pitch + int j * sint (kOctave c) \<le> 32767" using high h by simp
  have wl: "wrap_lowest c pitch = Some ?p"
    and sp: "sint ?p = sint pitch + int j * sint (kOctave c)"
    using wrap_lowest_octaves [OF oct raise low fits] by simp_all
  have wh: "wrap_highest c ?p = Some ?p"
    using high by (simp add: wrap_highest_in_range word_sle_eq sp)
  have e: "?p + of_nat k * kOctave c = pitch + of_nat (j + k) * kOctave c"
    by (simp add: algebra_simps)
  have r: "- 32768 \<le> sint ?p - sint (kPitchTableStart c)" using ref by (simp add: sp)
  have b: "sint ?p + (int k - 1) * sint (kOctave c) < sint (kPitchTableStart c)"
    using below by (simp add: sp algebra_simps)
  have w: "sint (kPitchTableStart c) \<le> sint ?p + int k * sint (kOctave c)"
    using window by (simp add: sp algebra_simps)
  note l = pitch_increment_lookup_shifted [OF oct r k b w, of res, unfolded e]
  show ?thesis
    using l by (simp add: resolve_pitch_def wl wh)
qed

theorem pitch_table_octave_law_witness:
  "0 < sint (kOctave sample_constants) \<and>
   sint (- 100 :: int16_t) + (int 1 - 1) * sint (kOctave sample_constants) <
     sint (kLowestNote sample_constants) \<and>
   sint (kLowestNote sample_constants) \<le>
     sint (- 100 :: int16_t) + int 1 * sint (kOctave sample_constants) \<and>
   sint (- 100 :: int16_t) + int 1 * sint (kOctave sample_constants) <
     sint (kHighestNote sample_constants) \<and>
   - 32768 \<le> sint (- 100 :: int16_t) + int 1 * sint (kOctave sample_constants) -
               sint (kPitchTableStart sample_constants) \<and>
   sint (- 100 :: int16_t) + (int 1 + int 8 - 1) * sint (kOctave sample_constants) <
     sint (kPitchTableStart sample_constants) \<and>
   sint (kPitchTableStart sample_constants) \<le>
     sint (- 100 :: int16_t) + (int 1 + int 8) * sint (kOctave sample_constants) \<and>
   pitch_increment_lookup sample_constants sample_resources 13724 = Some 32768 \<and>
   resolve_pitch sample_constants sample_resources (- 100) = Some (1436, 128) \<and>
   resolve_pitch sample_constants sample_resources 1436 = Some (1436, 128)"
  using pitch_table_octave_law [of sample_constants 1 "- 100" 8 sample_resources]
    pitch_table_octave_law [of sample_constants 0 1436 8 sample_resources]
  by (simp add: sample_constants_simps sample_resources_def)

lemma low_note: "resolve_pitch sample_constants sample_resources (- 100) = Some (1436, 128)"
proof -
  have a: "wrap_lowest sample_constants (- 100) = Some 1436"
    by (subst wrap_lowest.simps, simp add: sample_constants_simps word_sless_alt)+
  have b: "wrap_highest sample_constants 1436 = Some 1436"
    by (simp add: wrap_highest_in_range sample_constants_simps word_sle_eq)
  have c: "pitch_increment_lookup sample_constants sample_resources 1436 = Some (drop_bit 8 32768)"
    using pitch_increment_lookup_shifted(2) [of sample_constants 1436 8 sample_resources]
    by (simp add: sample_constants_simps sample_resources_def)
  show ?thesis by (simp add: resolve_pitch_def a b c)
qed

lemma in_window_note: "resolve_pitch sample_constants sample_resources 13724 = Some (13724, 32768)"
  by (simp add: resolve_pitch_in_range sample_constants_simps pitch_increment_lookup_def
        table_shift_in_window word_sless_alt sample_resources_def)

text \<open>
  C6, as stated, fails below the playable range. With the lowest note at 0, an octave
  of 1536 and the table starting at 12288, the assembled pitch \<open>- 100\<close> is nine octaves
  below the in-window pitch 13724, whose increment in the table is 32768. The first
  loop of the resolution raises it by one octave, to 1436, without counting a shift;
  the third loop counts the remaining eight. The increment is 128, whereas the
  in-window increment shifted right by the nine octaves added is 64.
\<close>

theorem pitch_below_lowest_note_counterexample:
  "resolve_pitch sample_constants sample_resources (- 100) = Some (1436, 128) \<and>
   resolve_pitch sample_constants sample_resources 13724 = Some (13724, 32768) \<and>
   (- 100 :: int16_t) + 9 * kOctave sample_constants = 13724 \<and>
   drop_bit 9 (32768 :: uint16_t) = 64"
  using low_note in_window_note by (simp add: sample_constants_simps)

section \<open>The XOR operator\<close>

lemma Audio_xor_signal:
  assumes "dead s = 0" and "osc_option (patch s) 0 = XOR_op c" and "XOR_op c \<noteq> RING_MOD c"
  shows "signal (Audio c inp s) =
          (let mix = (osc_1_render inp XOR osc_2_render inp) +
                     modulation_destinations s (MOD_DST_MIX_BALANCE c)
           in if osc_shape (patch s) 0 \<noteq> WAVEFORM_VOWEL c
              then Mix (Mix mix (sub_osc_render inp)
                          (modulation_destinations s (MOD_DST_MIX_SUB_OSC c)))
                       (random_state_msb inp)
                       (modulation_destinations s (MOD_DST_MIX_NOISE c))
              else mix)"
  using assms by (simp add: Audio_def Let_def call_def)

text \<open>
  C8, as amended. On a voice that is not dead and whose oscillator 1 option selects
  XOR, \<open>Voice::Audio\<close> combines the two raw samples by bitwise exclusive or and adds
  the resolved mix balance as an offset. The rendered sample is that value when
  oscillator 1 has the vowel shape; otherwise it is that value blended with the
  sub-oscillator sample and then with the noise sample, each weighted by its resolved
  destination.
\<close>

theorem Audio_xor_mix:
  assumes "dead s = 0" and "osc_option (patch s) 0 = XOR_op c" and "XOR_op c \<noteq> RING_MOD c"
  shows "signal (Audio c inp s) =
          (let mix = (osc_1_render inp XOR osc_2_render inp) +
                     modulation_destinations s (MOD_DST_MIX_BALANCE c)
           in if osc_shape (patch s) 0 \<noteq> WAVEFORM_VOWEL c
              then Mix (Mix mix (sub_osc_render inp)
                          (modulation_destinations s (MOD_DST_MIX_SUB_OSC c)))
                       (random_state_msb inp)
                       (modulation_destinations s (MOD_DST_MIX_NOISE c))
              else mix)"
  using assms by (simp add: Audio_def Let_def call_def)

lemma xor_voice_fields:
  "dead (xor_voice shape lvl) = 0"
  "osc_option (patch (xor_voice shape lvl)) 0 = 3"
  "osc_shape (patch (xor_voice shape lvl)) 0 = shape"
  "modulation_destinations (xor_voice shape lvl) 7 = 0"
  "modulation_destinations (xor_voice shape lvl) 9 = lvl"
  "modulation_destinations (xor_voice shape lvl) 8 = 0"
  by (simp_all add: xor_voice_def power_on_def osc_option_def osc_shape_def)

theorem Audio_xor_mix_witness:
  "dead (xor_voice 12 0) = 0 \<and>
   osc_option (patch (xor_voice 12 0)) 0 = XOR_op sample_constants \<and>
   XOR_op sample_constants \<noteq> RING_MOD sample_constants \<and>
   signal (Audio sample_constants xor_samples (xor_voice 12 0)) = 0xDE \<and>
   (0xB2 :: uint8_t) XOR 0x6C = 0xDE"
  using Audio_xor_mix [of "xor_voice 12 0" sample_constants xor_samples]
  by (simp add: xor_voice_fields sample_constants_simps xor_samples_def)

text \<open>
  C8, as stated, fails for the rendered sample. With the samples \<open>0b10110010\<close> and
  \<open>0b01101100\<close>, the mix balance resolved to 0 and the sawtooth shape, the exclusive
  or is 222; the rendered sample is 0 when the sub-oscillator level is resolved to
  255 (the sub-oscillator rendering 0), and 220 when the sub-oscillator and noise
  levels are resolved to 0.
\<close>

theorem Audio_xor_output_counterexample:
  "signal (Audio sample_constants xor_samples (xor_voice 3 255)) = 0 \<and>
   signal (Audio sample_constants xor_samples (xor_voice 3 0)) = 220 \<and>
   modulation_destinations (xor_voice 3 255) (MOD_DST_MIX_BALANCE sample_constants) = 0 \<and>
   modulation_destinations (xor_voice 3 0) (MOD_DST_MIX_BALANCE sample_constants) = 0 \<and>
   (0xB2 :: uint8_t) XOR 0x6C = 222"
  using Audio_xor_signal [of "xor_voice 3 255" sample_constants xor_samples]
    Audio_xor_signal [of "xor_voice 3 0" sample_constants xor_samples]
  by (simp add: xor_voice_fields sample_constants_simps xor_samples_def Mix_def)

section \<open>Setting a parameter\<close>

lemma small_rate_cases:
  fixes r :: uint8_t
  assumes "r < 16"
  shows "r \<in> {0, 1, 2, 3, 4, 5, 6, 7, 8, 9, 10, 11, 12, 13, 14, 15}"
proof -
  have "unat r < 16" using assms by (simp add: word_less_nat_alt)
  then have "unat r \<in> {0, 1, 2, 3, 4, 5, 6, 7, 8, 9, 10, 11, 12, 13, 14, 15}"
    by simp arith
  then have "word_of_nat (unat r) \<in> (word_of_nat ` {0, 1, 2, 3, 4, 5, 6, 7, 8, 9, 10, 11, 12, 13, 14, 15} :: uint8_t set)"
    by (rule imageI)
  then show ?thesis by simp
qed

lemma sample_beat:
  fixes r :: uint8_t
  assumes "r < 16"
  shows "drop_bit 2 (1000 * (1 + ucast r) :: uint16_t) \<noteq> 0"
  using small_rate_cases [OF assms] by auto

lemma fold_call:
  "fold (\<lambda>j. call x) js s = s\<lparr>calls := calls s @ replicate (length js) x\<rparr>"
  by (induction js arbitrary: s) (simp_all add: call_def replicate_app_Cons_same)

lemma update_lfo_frame:
  assumes "beat_defined e"
  shows "\<exists>t. update_lfo e res i s = Some t \<and> patch t = patch s \<and>
             filter is_controller_call (calls t) = filter is_controller_call (calls s)"
proof (cases "lfo_rate (patch s) (int i) < 16")
  case True
  then obtain inc where
    "synced_increment (estimated_beat_duration e (calls s)) (lfo_rate (patch s) (int i)) = Some inc"
    using assms unfolding beat_defined_def by blast
  then show ?thesis
    using True by (simp add: update_lfo_def Let_def fold_call)
next
  case False
  then show ?thesis
    by (simp add: update_lfo_def Let_def fold_call)
qed

lemma update_lfos_frame:
  assumes "beat_defined e"
  shows "\<exists>t. update_lfos e res js s = Some t \<and> patch t = patch s \<and>
             filter is_controller_call (calls t) = filter is_controller_call (calls s)"
proof (induction js arbitrary: s)
  case Nil
  then show ?case by simp
next
  case (Cons j js)
  obtain t where t: "update_lfo e res j s = Some t" "patch t = patch s"
      "filter is_controller_call (calls t) = filter is_controller_call (calls s)"
    using update_lfo_frame [OF assms] by blast
  obtain u where "update_lfos e res js t = Some u" "patch u = patch t"
      "filter is_controller_call (calls u) = filter is_controller_call (calls t)"
    using Cons.IH by blast
  with t show ?case by simp
qed

lemma UpdateModulationIncrements_frame:
  assumes "beat_defined e"
  shows "\<exists>t. UpdateModulationIncrements e res s = Some t \<and> patch t = patch s \<and>
             filter is_controller_call (calls t) = filter is_controller_call (calls s)"
  using update_lfos_frame [OF assms, of res "[0..<kNumLfos]"
          "s\<lparr>num_lfo_reset_steps := 0, lfo_to_reset := 0\<rparr>"]
  by (simp add: UpdateModulationIncrements_def)

lemma UpdateOscillatorAlgorithms_frame:
  "patch (UpdateOscillatorAlgorithms s) = patch s"
  "filter is_controller_call (calls (UpdateOscillatorAlgorithms s)) =
   filter is_controller_call (calls s)"
  by (simp_all add: UpdateOscillatorAlgorithms_def call_def)

text \<open>
  C9. For every index that addresses a byte of the patch and every value,
  \<open>SetParameter\<close> returns, the patch is the old patch with the value stored in the field
  of that index (the byte at offset index + 1), and the calls received by the note
  dispatcher's setters are the old ones followed by the forwarding of the value for the
  arpeggiator tempo, octave range, pattern, swing and pattern size, and by nothing for
  any other index.
\<close>

theorem SetParameter_dispatch:
  assumes "beat_defined e" and "uint parameter_index < sizeof_Patch e - 1"
  shows "\<exists>s'. SetParameter e res parameter_index parameter_value s = Some s' \<and>
              patch s' = (patch s)(uint parameter_index + 1 := parameter_value) \<and>
              filter is_controller_call (calls s') =
                filter is_controller_call (calls s) @ forwarded e parameter_index parameter_value"
proof -
  let ?i = "uint parameter_index"
  define s1 where "s1 = s\<lparr>patch := (patch s)(?i + 1 := parameter_value)\<rparr>"
  let ?first = "if PRM_ENV_ATTACK_1 e \<le> ?i \<and> ?i \<le> PRM_LFO_RATE_2 e
                then UpdateModulationIncrements e res s1 else Some s1"
  obtain s2 where s2: "?first = Some s2" "patch s2 = patch s1"
      "filter is_controller_call (calls s2) = filter is_controller_call (calls s1)"
    using UpdateModulationIncrements_frame [OF assms(1), of res s1]
    by (cases "PRM_ENV_ATTACK_1 e \<le> ?i \<and> ?i \<le> PRM_LFO_RATE_2 e") auto
  define s3 where "s3 = (if ?i \<le> PRM_OSC_SHAPE_2 e \<or> ?i = PRM_MIX_SUB_OSC_SHAPE e
             then UpdateOscillatorAlgorithms s2 else s2)"
  have s3: "patch s3 = (patch s)(?i + 1 := parameter_value)"
      "filter is_controller_call (calls s3) = filter is_controller_call (calls s)"
    using s2 by (simp_all add: s3_def s1_def UpdateOscillatorAlgorithms_frame)
  define t where "t = call (controller_SetTempo parameter_value) s3"
  obtain s4 where s4: "UpdateModulationIncrements e res t = Some s4" "patch s4 = patch t"
      "filter is_controller_call (calls s4) = filter is_controller_call (calls t)"
    using UpdateModulationIncrements_frame [OF assms(1), of res t] by blast
  have t: "patch t = (patch s)(?i + 1 := parameter_value)"
     "filter is_controller_call (calls t) =
      filter is_controller_call (calls s) @ [controller_SetTempo parameter_value]"
    using s3 by (simp_all add: t_def call_def)
  have eq: "SetParameter e res parameter_index parameter_value s =
     (if ?i = PRM_ARP_TEMPO e then Some s4
      else if ?i = PRM_ARP_OCTAVE e then Some (call (controller_SetOctaves parameter_value) s3)
      else if ?i = PRM_ARP_PATTERN e then Some (call (controller_SetPattern parameter_value) s3)
      else if ?i = PRM_ARP_SWING e then Some (call (controller_SetSwing parameter_value) s3)
      else if ?i = PRM_ARP_PATTERN_SIZE e
      then Some (call (controller_set_pattern_size parameter_value) s3)
      else Some s3)"
    unfolding s3_def t_def [symmetric] s1_def
    using s2(1) s4(1)
    by (simp only: SetParameter_def Let_def s1_def [symmetric] s3_def [symmetric]
          t_def [symmetric] option.case)
  have c: "patch (call x s3) = (patch s)(?i + 1 := parameter_value)"
     "filter is_controller_call (calls (call x s3)) =
      filter is_controller_call (calls s) @ filter is_controller_call [x]" for x
    using s3 by (simp_all add: call_def)
  show ?thesis
  proof (cases "?i = PRM_ARP_TEMPO e")
    case True
    then show ?thesis using s4 t by (simp add: eq forwarded_def)
  next
    case f1: False
    show ?thesis
    proof (cases "?i = PRM_ARP_OCTAVE e")
      case True
      then show ?thesis using f1 c by (simp add: eq forwarded_def)
    next
      case f2: False
      show ?thesis
      proof (cases "?i = PRM_ARP_PATTERN e")
        case True
        then show ?thesis using f1 f2 c by (simp add: eq forwarded_def)
      next
        case f3: False
        show ?thesis
        proof (cases "?i = PRM_ARP_SWING e")
          case True
          then show ?thesis using f1 f2 f3 c by (simp add: eq forwarded_def)
        next
          case f4: False
          show ?thesis
          proof (cases "?i = PRM_ARP_PATTERN_SIZE e")
            case True
            then show ?thesis using f1 f2 f3 f4 c by (simp add: eq forwarded_def)
          next
            case False
            then show ?thesis using f1 f2 f3 f4 s3 by (simp add: eq forwarded_def)
          qed
        qed
      qed
    qed
  qed
qed

lemma sample_beat_defined: "beat_defined sample_engine"
  using sample_beat
  by (simp add: beat_defined_def sample_engine_def synced_increment_def Let_def)

lemma sample_engine_simps:
  "PRM_OSC_SHAPE_2 sample_engine = 1" "PRM_MIX_SUB_OSC_SHAPE sample_engine = 11"
  "PRM_ENV_ATTACK_1 sample_engine = 16" "PRM_LFO_RATE_2 sample_engine = 27"
  "PRM_ARP_TEMPO sample_engine = 70" "PRM_ARP_OCTAVE sample_engine = 71"
  "PRM_ARP_PATTERN sample_engine = 72" "PRM_ARP_SWING sample_engine = 73"
  "PRM_ARP_PATTERN_SIZE sample_engine = 94" "sizeof_Patch sample_engine = 96"
  "kModulationWheelMsb sample_engine = 1" "kDataEntryMsb sample_engine = 6"
  "kPortamentoTimeMsb sample_engine = 5" "kRelease sample_engine = 72"
  "kAttack sample_engine = 73" "kHarmonicIntensity sample_engine = 71"
  "kBrightness sample_engine = 74" "kNrpnMsb sample_engine = 99"
  "kNumVoices sample_engine = 1" "estimated_beat_duration sample_engine tr = 1000"
  by (simp_all add: sample_engine_def)

theorem SetParameter_dispatch_witness:
  "beat_defined sample_engine \<and>
   uint (70 :: uint8_t) < sizeof_Patch sample_engine - 1 \<and>
   (\<exists>s'. SetParameter sample_engine sample_resources 70 90 (power_on sample_constants) = Some s' \<and>
         patch s' 71 = 90 \<and>
         filter is_controller_call (calls s') = [controller_SetTempo 90])"
  using SetParameter_dispatch [of sample_engine 70 sample_resources 90
          "power_on sample_constants"]
  by (auto simp add: sample_beat_defined forwarded_def sample_engine_simps power_on_def)

section \<open>The guard of the data-entry controller\<close>

lemma ControlChange_data_entry:
  assumes "kDataEntryMsb e \<noteq> kModulationWheelMsb e"
  shows "ControlChange c e res channel (kDataEntryMsb e) value s =
         (if uint (nrpn_parameter_number s) < sizeof_Patch e - 1
          then SetParameter e res (nrpn_parameter_number s) value s
          else Some s)"
  using assms by (simp add: ControlChange_def)

lemma ControlChange_guarded:
  assumes "sizeof_Patch e \<le> 256" and "nrpn_parameter_number s = 0xff"
    and "kDataEntryMsb e \<noteq> kModulationWheelMsb e"
  shows "ControlChange c e res channel (kDataEntryMsb e) value s = Some s"
  using assms by (simp add: ControlChange_data_entry)

lemma ControlChange_keeps_nrpn:
  assumes "controller \<noteq> kNrpnMsb e" and "controller \<noteq> kDataEntryMsb e"
    and "ControlChange c e res channel controller value s = Some t"
  shows "nrpn_parameter_number t = nrpn_parameter_number s"
  using assms by (auto simp add: ControlChange_def split: if_splits)

lemma ControlChanges_skip_data_entry:
  assumes "sizeof_Patch e \<le> 256" and "kDataEntryMsb e \<noteq> kModulationWheelMsb e"
  shows "nrpn_parameter_number s = 0xff \<Longrightarrow>
         list_all (\<lambda>(channel, controller, value). controller \<noteq> kNrpnMsb e) ms \<Longrightarrow>
         ControlChanges c e res ms s =
         ControlChanges c e res
           (filter (\<lambda>(channel, controller, value). controller \<noteq> kDataEntryMsb e) ms) s"
proof (induction ms arbitrary: s)
  case Nil
  then show ?case by simp
next
  case (Cons m ms)
  obtain channel controller "value" where m: "m = (channel, controller, value)"
    by (cases m) auto
  have rest: "list_all (\<lambda>(channel, controller, value). controller \<noteq> kNrpnMsb e) ms"
    and ctl: "controller \<noteq> kNrpnMsb e"
    using Cons.prems(2) m by simp_all
  show ?case
  proof (cases "controller = kDataEntryMsb e")
    case True
    then have "ControlChange c e res channel controller value s = Some s"
      using assms Cons.prems(1) by (simp add: ControlChange_guarded)
    then show ?thesis
      using True m Cons.IH [OF Cons.prems(1) rest] by simp
  next
    case False
    show ?thesis
    proof (cases "ControlChange c e res channel controller value s")
      case None
      then show ?thesis using False m by simp
    next
      case (Some t)
      then have "nrpn_parameter_number t = 0xff"
        using ControlChange_keeps_nrpn [OF ctl False Some] Cons.prems(1) by simp
      then show ?thesis
        using False m Some Cons.IH [OF _ rest, of t] by simp
    qed
  qed
qed

text \<open>
  C10. A data-entry message writes a parameter only when the stored parameter number is
  less than \<open>sizeof(Patch) - 1\<close>. The number is \<open>0xff\<close> when the program starts; while it is
  (no message has selected a parameter), a data-entry message returns the state as it
  is, and a stream of messages without a selection leaves the engine in the state that
  the stream without its data-entry messages leaves it in.
\<close>

theorem data_entry_guard:
  assumes "sizeof_Patch e \<le> 256" and "kDataEntryMsb e \<noteq> kModulationWheelMsb e"
  shows "ControlChange c e res channel (kDataEntryMsb e) value s =
           (if uint (nrpn_parameter_number s) < sizeof_Patch e - 1
            then SetParameter e res (nrpn_parameter_number s) value s
            else Some s) \<and>
         nrpn_parameter_number (power_on c) = 0xff \<and>
         (nrpn_parameter_number s = 0xff \<and>
          list_all (\<lambda>(channel, controller, value). controller \<noteq> kNrpnMsb e) ms \<longrightarrow>
          ControlChange c e res channel (kDataEntryMsb e) value s = Some s \<and>
          ControlChanges c e res ms s =
            ControlChanges c e res
              (filter (\<lambda>(channel, controller, value). controller \<noteq> kDataEntryMsb e) ms) s)"
  using assms ControlChange_data_entry [OF assms(2)] ControlChange_guarded [OF assms(1) _ assms(2)]
    ControlChanges_skip_data_entry [OF assms]
  by (simp add: power_on_def)

theorem data_entry_guard_witness:
  "sizeof_Patch sample_engine \<le> 256 \<and>
   kDataEntryMsb sample_engine \<noteq> kModulationWheelMsb sample_engine \<and>
   ControlChanges sample_constants sample_engine sample_resources
     [(0, 6, 64), (0, 1, 10), (0, 6, 127)] (power_on sample_constants) =
   Some ((power_on sample_constants)
           \<lparr>modulation_sources := (modulation_sources (power_on sample_constants))(4 := 20)\<rparr>)"
  using data_entry_guard [of sample_engine sample_constants sample_resources 0 64
          "power_on sample_constants" "[(0, 6, 64), (0, 1, 10), (0, 6, 127)]"]
  by (simp add: sample_engine_simps)
     (simp add: ControlChange_def sample_engine_simps sample_constants_simps power_on_def)

section \<open>The resynchronisation of the LFOs\<close>

lemma ucast_word_of_int_low_byte:
  "(ucast (word_of_int k :: uint16_t) :: uint8_t) = word_of_int k"
  by (simp add: unsigned_of_int word_of_int_eq_iff)

lemma UnsignedUnsignedMul_low_byte: "ucast (UnsignedUnsignedMul a b) = a * b"
  unfolding UnsignedUnsignedMul_def ucast_word_of_int_low_byte by simp

lemma small_rate_nonzero:
  fixes r :: uint8_t
  assumes "r < 16"
  shows "1 + r \<noteq> 0"
  using small_rate_cases [OF assms] by auto

lemma update_lfo_result:
  assumes "beat_defined e"
  shows "\<exists>t increment. update_lfo e res i s = Some t \<and> patch t = patch s \<and>
        lfo_reset_counter t = lfo_reset_counter s \<and>
        num_lfo_reset_steps t =
          (if lfo_rate (patch s) (int i) < 16
           then (if num_lfo_reset_steps s \<noteq> 0 then num_lfo_reset_steps s else 1) *
                (1 + lfo_rate (patch s) (int i))
           else num_lfo_reset_steps s) \<and>
        lfo_to_reset t =
          (if lfo_rate (patch s) (int i) < 16 then lfo_to_reset s OR push_bit i 1
           else lfo_to_reset s) \<and>
        lfo t = (lfo s)(int i := Lfo_Update (lfo_wave (patch s) (int i)) increment (lfo s (int i)))"
proof (cases "lfo_rate (patch s) (int i) < 16")
  case True
  then obtain inc where
    "synced_increment (estimated_beat_duration e (calls s)) (lfo_rate (patch s) (int i)) = Some inc"
    using assms unfolding beat_defined_def by blast
  then show ?thesis
    using True by (auto simp add: update_lfo_def Let_def fold_call UnsignedUnsignedMul_low_byte)
next
  case False
  then show ?thesis
    by (auto simp add: update_lfo_def Let_def fold_call)
qed

lemma UpdateModulationIncrements_result:
  assumes "beat_defined e"
  shows "\<exists>t. UpdateModulationIncrements e res s = Some t \<and> patch t = patch s \<and>
        lfo_reset_counter t = lfo_reset_counter s \<and>
        num_lfo_reset_steps t = of_nat (reset_cadence (patch s)) \<and>
        lfo_to_reset t = (if lfo_rate (patch s) 0 < 16 then 1 else 0) OR
                         (if lfo_rate (patch s) 1 < 16 then 2 else 0) \<and>
        (\<forall>j. lfo_phase (lfo t j) = lfo_phase (lfo s j))"
proof -
  let ?s0 = "s\<lparr>num_lfo_reset_steps := 0, lfo_to_reset := 0\<rparr>"
  obtain t0 i0 where t0: "update_lfo e res 0 ?s0 = Some t0" "patch t0 = patch s"
      "lfo_reset_counter t0 = lfo_reset_counter s"
      "num_lfo_reset_steps t0 = (if lfo_rate (patch s) 0 < 16 then 1 + lfo_rate (patch s) 0 else 0)"
      "lfo_to_reset t0 = (if lfo_rate (patch s) 0 < 16 then 1 else 0)"
      "lfo t0 = (lfo s)(0 := Lfo_Update (lfo_wave (patch s) 0) i0 (lfo s 0))"
    using update_lfo_result [OF assms, of res 0 ?s0] by auto
  obtain t1 i1 where t1: "update_lfo e res 1 t0 = Some t1" "patch t1 = patch s"
      "lfo_reset_counter t1 = lfo_reset_counter s"
      "num_lfo_reset_steps t1 =
          (if lfo_rate (patch s) 1 < 16
           then (if num_lfo_reset_steps t0 \<noteq> 0 then num_lfo_reset_steps t0 else 1) *
                (1 + lfo_rate (patch s) 1)
           else num_lfo_reset_steps t0)"
      "lfo_to_reset t1 =
          (if lfo_rate (patch s) 1 < 16 then lfo_to_reset t0 OR 2 else lfo_to_reset t0)"
      "lfo t1 = (lfo t0)(1 := Lfo_Update (lfo_wave (patch s) 1) i1 (lfo t0 1))"
    using update_lfo_result [OF assms, of res 1 t0] t0 by auto
  have run: "UpdateModulationIncrements e res s = Some t1"
    using t0(1) t1(1) by (simp add: UpdateModulationIncrements_def kNumLfos_def numeral_2_eq_2)
  have num: "num_lfo_reset_steps t1 = of_nat (reset_cadence (patch s))"
    using t0(4) t1(4) small_rate_nonzero [of "lfo_rate (patch s) 0"]
    by (simp add: reset_cadence_def Let_def algebra_simps)
  have bits: "lfo_to_reset t1 = (if lfo_rate (patch s) 0 < 16 then 1 else 0) OR
                         (if lfo_rate (patch s) 1 < 16 then 2 else 0)"
    using t0(5) t1(5) by simp
  have ph: "lfo_phase (lfo t1 j) = lfo_phase (lfo s j)" for j
    using t0(6) t1(6) by (simp add: Lfo_Update_def)
  show ?thesis using run t1(2,3) num bits ph by blast
qed

lemma Control_lfos_no_reset:
  assumes "controller_Control_result inp = 0 \<or>
           lfo_reset_counter s + 1 \<noteq> num_lfo_reset_steps s"
  shows "\<exists>t. Control_lfos c e res inp s = Some t \<and> patch t = patch s \<and>
        num_lfo_reset_steps t = num_lfo_reset_steps s \<and>
        lfo_to_reset t = lfo_to_reset s \<and>
        lfo_reset_counter t =
          (if controller_Control_result inp \<noteq> 0 then lfo_reset_counter s + 1
           else lfo_reset_counter s) \<and>
        lfo t 0 = Lfo_Increment (lfo s 0) \<and> lfo t 1 = Lfo_Increment (lfo s 1)"
  using assms
  by (auto simp add: Control_lfos_def Let_def call_def kNumLfos_def numeral_2_eq_2)

lemma counter_below_cadence:
  fixes counter num :: uint8_t
  assumes "unat counter + 1 < (if num = 0 then 256 else unat num)"
  shows "counter + 1 \<noteq> num" and "unat (counter + 1) = unat counter + 1"
proof -
  have b: "unat counter + 1 < 256"
    using assms unsigned_less [of num, where ?'a = nat] by (simp split: if_splits)
  then show u: "unat (counter + 1) = unat counter + 1"
    by (simp add: unat_word_ariths)
  show "counter + 1 \<noteq> num"
  proof
    assume "counter + 1 = num"
    then have "unat num = unat counter + 1" using u by simp
    then show False using assms by (simp add: unat_eq_0 split: if_splits)
  qed
qed

lemma Control_lfos_run_no_reset:
  "unat (lfo_reset_counter s) + step_advances inps <
     (if num_lfo_reset_steps s = 0 then 256 else unat (num_lfo_reset_steps s)) \<Longrightarrow>
   \<exists>t. Control_lfos_run c e res inps s = Some t \<and> patch t = patch s \<and>
       num_lfo_reset_steps t = num_lfo_reset_steps s \<and>
       lfo_to_reset t = lfo_to_reset s \<and>
       unat (lfo_reset_counter t) = unat (lfo_reset_counter s) + step_advances inps \<and>
       lfo t 0 = (Lfo_Increment ^^ length inps) (lfo s 0) \<and>
       lfo t 1 = (Lfo_Increment ^^ length inps) (lfo s 1)"
proof (induction inps arbitrary: s)
  case Nil
  then show ?case by (simp add: step_advances_def)
next
  case (Cons inp inps)
  let ?N = "if num_lfo_reset_steps s = 0 then 256 else unat (num_lfo_reset_steps s)"
  have adv: "step_advances (inp # inps) =
             (if controller_Control_result inp \<noteq> 0 then 1 else 0) + step_advances inps"
    by (simp add: step_advances_def)
  have quiet: "controller_Control_result inp = 0 \<or>
               lfo_reset_counter s + 1 \<noteq> num_lfo_reset_steps s"
  proof (cases "controller_Control_result inp = 0")
    case True
    then show ?thesis by simp
  next
    case False
    then have "unat (lfo_reset_counter s) + 1 < ?N"
      using Cons.prems adv by (simp split: if_splits)
    then show ?thesis using counter_below_cadence(1) by blast
  qed
  obtain t where t: "Control_lfos c e res inp s = Some t" "patch t = patch s"
      "num_lfo_reset_steps t = num_lfo_reset_steps s" "lfo_to_reset t = lfo_to_reset s"
      "lfo_reset_counter t =
          (if controller_Control_result inp \<noteq> 0 then lfo_reset_counter s + 1
           else lfo_reset_counter s)"
      "lfo t 0 = Lfo_Increment (lfo s 0)" "lfo t 1 = Lfo_Increment (lfo s 1)"
    using Control_lfos_no_reset [OF quiet] by blast
  have ct: "unat (lfo_reset_counter t) =
            unat (lfo_reset_counter s) + (if controller_Control_result inp \<noteq> 0 then 1 else 0)"
  proof (cases "controller_Control_result inp = 0")
    case True
    then show ?thesis using t(5) by simp
  next
    case False
    then have "unat (lfo_reset_counter s) + 1 < ?N"
      using Cons.prems adv by (simp split: if_splits)
    then show ?thesis using counter_below_cadence(2) t(5) False by simp
  qed
  have "unat (lfo_reset_counter t) + step_advances inps <
        (if num_lfo_reset_steps t = 0 then 256 else unat (num_lfo_reset_steps t))"
    using Cons.prems adv ct t(3) by (simp split: if_splits)
  from Cons.IH [OF this] obtain u where u: "Control_lfos_run c e res inps t = Some u"
      "patch u = patch t" "num_lfo_reset_steps u = num_lfo_reset_steps t"
      "lfo_to_reset u = lfo_to_reset t"
      "unat (lfo_reset_counter u) = unat (lfo_reset_counter t) + step_advances inps"
      "lfo u 0 = (Lfo_Increment ^^ length inps) (lfo t 0)"
      "lfo u 1 = (Lfo_Increment ^^ length inps) (lfo t 1)"
    by blast
  have "Control_lfos_run c e res (inp # inps) s = Some u"
    using t(1) u(1) by simp
  moreover have "unat (lfo_reset_counter u) =
                 unat (lfo_reset_counter s) + step_advances (inp # inps)"
    using u(5) ct adv by simp
  moreover have "lfo u 0 = (Lfo_Increment ^^ length (inp # inps)) (lfo s 0)"
    using u(6) t(6) by (simp add: funpow_swap1)
  moreover have "lfo u 1 = (Lfo_Increment ^^ length (inp # inps)) (lfo s 1)"
    using u(7) t(7) by (simp add: funpow_swap1)
  ultimately show ?case using u(2,3,4) t(2,3,4) by simp
qed

lemma Control_lfos_reset:
  assumes "beat_defined e" and "controller_Control_result inp \<noteq> 0"
    and "lfo_reset_counter s + 1 = num_lfo_reset_steps s"
  shows "\<exists>u. Control_lfos c e res inp s = Some u \<and> lfo_reset_counter u = 0 \<and>
        patch u = patch s \<and>
        num_lfo_reset_steps u = of_nat (reset_cadence (patch s)) \<and>
        (lfo_rate (patch s) 0 < 16 \<longrightarrow> lfo_phase (lfo u 0) = 0) \<and>
        (lfo_rate (patch s) 1 < 16 \<longrightarrow> lfo_phase (lfo u 1) = 0)"
proof -
  define s3 where "s3 =
    call controller_Control
       ((fold (\<lambda>i t. t\<lparr>lfo := (lfo t)(int i := Lfo_Increment (lfo t (int i))),
                          modulation_sources := (modulation_sources t)
                            (MOD_SRC_LFO_1 c + int i := lfo_render inp (int i))\<rparr>)
              [0..<kNumLfos] s)
        \<lparr>modulation_sources :=
            (modulation_sources
               (fold (\<lambda>i t. t\<lparr>lfo := (lfo t)(int i := Lfo_Increment (lfo t (int i))),
                          modulation_sources := (modulation_sources t)
                            (MOD_SRC_LFO_1 c + int i := lfo_render inp (int i))\<rparr>)
              [0..<kNumLfos] s))
            (MOD_SRC_RANDOM c := random_msb inp)\<rparr>)"
  define s4 where "s4 = s3\<lparr>lfo_reset_counter := lfo_reset_counter s3 + 1\<rparr>"
  have f3: "patch s3 = patch s" "lfo_reset_counter s3 = lfo_reset_counter s"
    "num_lfo_reset_steps s3 = num_lfo_reset_steps s"
    by (simp_all add: s3_def call_def kNumLfos_def numeral_2_eq_2)
  have f: "patch s4 = patch s" "lfo_reset_counter s4 = num_lfo_reset_steps s4"
    using f3 assms(3) by (simp_all add: s4_def)
  have unfold: "Control_lfos c e res inp s =
        (if controller_Control_result inp \<noteq> 0
         then (if lfo_reset_counter s4 = num_lfo_reset_steps s4
               then (case UpdateModulationIncrements e res s4 of
                       None \<Rightarrow> None
                     | Some s5 \<Rightarrow>
                         Some ((fold (\<lambda>i t. if lfo_to_reset t AND push_bit i 1 \<noteq> 0
                                             then t\<lparr>lfo := (lfo t)(int i := Lfo_Reset (lfo t (int i)))\<rparr>
                                             else t)
                                     [0..<kNumLfos] s5)
                               \<lparr>lfo_reset_counter := 0\<rparr>))
               else Some s4)
         else Some s3)"
    by (simp only: Control_lfos_def Let_def s3_def s4_def)
  obtain s5 where s5: "UpdateModulationIncrements e res s4 = Some s5" "patch s5 = patch s4"
      "num_lfo_reset_steps s5 = of_nat (reset_cadence (patch s4))"
      "lfo_to_reset s5 = (if lfo_rate (patch s4) 0 < 16 then 1 else 0) OR
                         (if lfo_rate (patch s4) 1 < 16 then 2 else 0)"
    using UpdateModulationIncrements_result [OF assms(1), of res s4] by blast
  have run: "Control_lfos c e res inp s =
        Some ((fold (\<lambda>i t. if lfo_to_reset t AND push_bit i 1 \<noteq> 0
                               then t\<lparr>lfo := (lfo t)(int i := Lfo_Reset (lfo t (int i)))\<rparr>
                               else t)
                     [0..<kNumLfos] s5)
               \<lparr>lfo_reset_counter := 0\<rparr>)"
    unfolding unfold using assms(2) f(2) s5(1) by simp
  show ?thesis
    unfolding run using s5(2,3,4) f(1)
    by (simp add: kNumLfos_def numeral_2_eq_2 Lfo_Reset_def)
qed

lemma reset_cadence_bounds:
  "reset_cadence p \<le> 256"
  "lfo_rate p 0 < 16 \<or> lfo_rate p 1 < 16 \<Longrightarrow> 0 < reset_cadence p"
proof -
  have m: "(1 + unat (lfo_rate p 0)) * (1 + unat (lfo_rate p 1)) \<le> 16 * 16"
    if "lfo_rate p 0 < 16" "lfo_rate p 1 < 16"
    using that by (intro mult_le_mono) (simp_all add: word_less_nat_alt)
  show "reset_cadence p \<le> 256"
    using m by (auto simp add: reset_cadence_def Let_def word_less_nat_alt)
  show "lfo_rate p 0 < 16 \<or> lfo_rate p 1 < 16 \<Longrightarrow> 0 < reset_cadence p"
    by (auto simp add: reset_cadence_def Let_def)
qed

lemma reset_cadence_zero:
  "reset_cadence p = 0 \<longleftrightarrow> \<not> (lfo_rate p 0 < 16 \<or> lfo_rate p 1 < 16)"
  by (auto simp add: reset_cadence_def Let_def)

lemma cadence_byte:
  assumes "0 < n" and "n \<le> 256"
  shows "(if (of_nat n :: uint8_t) = 0 then 256 else unat (of_nat n :: uint8_t)) = n"
    and "unat (of_nat n :: uint8_t) = n mod 256"
    and "(of_nat (n - 1) :: uint8_t) + 1 = of_nat n"
proof -
  show m: "unat (of_nat n :: uint8_t) = n mod 256"
    by (simp add: unat_of_nat)
  show "(if (of_nat n :: uint8_t) = 0 then 256 else unat (of_nat n :: uint8_t)) = n"
  proof (cases "n = 256")
    case True
    then show ?thesis by simp
  next
    case False
    then have "n < 256" using assms by simp
    then have "unat (of_nat n :: uint8_t) = n" using m by simp
    then show ?thesis using assms(1) by (auto simp add: unat_eq_0)
  qed
  show "(of_nat (n - 1) :: uint8_t) + 1 = of_nat n"
    using assms(1) by (cases n) simp_all
qed

text \<open>
  C7, as amended. \<open>UpdateModulationIncrements\<close> stores, as the reset cadence, the product
  of \<open>1 + rate\<close> over the tempo-synced LFOs modulo 256 (the variable is a byte). Counting
  from a reset (the counter is 0), a run of control ticks with fewer step advances than
  the product only advances the phases of the LFOs, by their increments; and at the
  step advance whose number is the product, the counter returns to 0 and the phase of
  every synced LFO is 0.
\<close>

theorem lfo_resync_cadence:
  assumes "beat_defined e"
    and "lfo_reset_counter s0 = 0"
    and "step_advances before < reset_cadence (patch s0)"
  shows "\<exists>s t. UpdateModulationIncrements e res s0 = Some s \<and>
           unat (num_lfo_reset_steps s) = reset_cadence (patch s0) mod 256 \<and>
           Control_lfos_run c e res before s = Some t \<and>
           lfo t 0 = (Lfo_Increment ^^ length before) (lfo s 0) \<and>
           lfo t 1 = (Lfo_Increment ^^ length before) (lfo s 1) \<and>
           (step_advances before = reset_cadence (patch s0) - 1 \<and>
            controller_Control_result inp \<noteq> 0 \<longrightarrow>
            (\<exists>u. Control_lfos c e res inp t = Some u \<and> lfo_reset_counter u = 0 \<and>
                 (lfo_rate (patch s0) 0 < 16 \<longrightarrow> lfo_phase (lfo u 0) = 0) \<and>
                 (lfo_rate (patch s0) 1 < 16 \<longrightarrow> lfo_phase (lfo u 1) = 0)))"
proof -
  let ?P = "reset_cadence (patch s0)"
  have pos: "0 < ?P" using assms(3) by simp
  have le: "?P \<le> 256" by (rule reset_cadence_bounds(1))
  obtain s where s: "UpdateModulationIncrements e res s0 = Some s" "patch s = patch s0"
      "lfo_reset_counter s = lfo_reset_counter s0"
      "num_lfo_reset_steps s = of_nat ?P"
    using UpdateModulationIncrements_result [OF assms(1), of res s0] by blast
  have byte: "unat (num_lfo_reset_steps s) = ?P mod 256"
    using s(4) cadence_byte(2) [OF pos le] by simp
  have N: "(if num_lfo_reset_steps s = 0 then 256 else unat (num_lfo_reset_steps s)) = ?P"
    using cadence_byte(1) [OF pos le] by (simp only: s(4))
  have "unat (lfo_reset_counter s) + step_advances before <
        (if num_lfo_reset_steps s = 0 then 256 else unat (num_lfo_reset_steps s))"
    unfolding N using s(3) assms(2,3) by simp
  from Control_lfos_run_no_reset [OF this, of c e res]
  obtain t where t: "Control_lfos_run c e res before s = Some t" "patch t = patch s"
      "num_lfo_reset_steps t = num_lfo_reset_steps s"
      "unat (lfo_reset_counter t) = unat (lfo_reset_counter s) + step_advances before"
      "lfo t 0 = (Lfo_Increment ^^ length before) (lfo s 0)"
      "lfo t 1 = (Lfo_Increment ^^ length before) (lfo s 1)"
    by blast
  have final: "\<exists>u. Control_lfos c e res inp t = Some u \<and> lfo_reset_counter u = 0 \<and>
                 (lfo_rate (patch s0) 0 < 16 \<longrightarrow> lfo_phase (lfo u 0) = 0) \<and>
                 (lfo_rate (patch s0) 1 < 16 \<longrightarrow> lfo_phase (lfo u 1) = 0)"
    if adv: "step_advances before = ?P - 1" "controller_Control_result inp \<noteq> 0"
  proof -
    have "unat (lfo_reset_counter t) = ?P - 1"
      using t(4) s(3) assms(2) adv(1) by simp
    then have "of_nat (unat (lfo_reset_counter t)) = (of_nat (?P - 1) :: uint8_t)"
      by simp
    then have "lfo_reset_counter t = of_nat (?P - 1)"
      by simp
    then have "lfo_reset_counter t + 1 = num_lfo_reset_steps t"
      using cadence_byte(3) [OF pos le] t(3) s(4) by simp
    from Control_lfos_reset [OF assms(1) adv(2) this, of c res]
    show ?thesis using t(2) s(2) by auto
  qed
  show ?thesis using s(1) byte t(1,5,6) final by blast
qed

lemma synced_engine_fields:
  "lfo_reset_counter (synced_engine r0 r1) = 0"
  "lfo_rate (patch (synced_engine r0 r1)) 0 = r0"
  "lfo_rate (patch (synced_engine r0 r1)) 1 = r1"
  by (simp_all add: synced_engine_def power_on_def lfo_rate_def)

lemma step_run_advances: "step_advances (replicate n step_input) = n"
  by (simp add: step_advances_def step_input_def)

theorem lfo_resync_cadence_witness:
  "beat_defined sample_engine \<and>
   lfo_reset_counter (synced_engine 3 7) = 0 \<and>
   reset_cadence (patch (synced_engine 3 7)) = 32 \<and>
   step_advances (replicate 31 step_input) = 31 \<and>
   controller_Control_result step_input \<noteq> 0 \<and>
   (\<exists>s t u. UpdateModulationIncrements sample_engine sample_resources (synced_engine 3 7) =
              Some s \<and>
            unat (num_lfo_reset_steps s) = 32 \<and>
            Control_lfos_run sample_constants sample_engine sample_resources
              (replicate 31 step_input) s = Some t \<and>
            Control_lfos sample_constants sample_engine sample_resources step_input t =
              Some u \<and>
            lfo_reset_counter u = 0 \<and>
            lfo_phase (lfo u 0) = 0 \<and> lfo_phase (lfo u 1) = 0)"
proof -
  have c: "reset_cadence (patch (synced_engine 3 7)) = 32"
    by (simp add: reset_cadence_def synced_engine_fields Let_def)
  have h: "step_advances (replicate 31 step_input) < reset_cadence (patch (synced_engine 3 7))"
    by (simp add: c step_run_advances)
  have r: "controller_Control_result step_input \<noteq> 0"
    by (simp add: step_input_def)
  show ?thesis
    using lfo_resync_cadence [OF sample_beat_defined synced_engine_fields(1) h,
            where res = sample_resources and c = sample_constants and inp = step_input]
    by (auto simp add: sample_beat_defined synced_engine_fields c step_run_advances r)
qed

text \<open>
  C7, as stated, fails for the stored cadence when both rates are 15: the product of
  \<open>1 + rate\<close> is 256, and the cadence that \<open>UpdateModulationIncrements\<close> stores is 0.
\<close>

theorem cadence_byte_wraps_counterexample:
  "map_option num_lfo_reset_steps
     (UpdateModulationIncrements sample_engine sample_resources (synced_engine 15 15)) =
     Some 0 \<and>
   lfo_rate (patch (synced_engine 15 15)) 0 = 15 \<and>
   lfo_rate (patch (synced_engine 15 15)) 1 = 15 \<and>
   (1 + unat (15 :: uint8_t)) * (1 + unat (15 :: uint8_t)) = 256"
  using UpdateModulationIncrements_result [OF sample_beat_defined, of sample_resources
          "synced_engine 15 15"]
  by (auto simp add: reset_cadence_def synced_engine_fields Let_def)

end
